theory Spec2Isabelle
  imports Main "HOL-Library.Word"
begin

unbundle bit_operations_syntax

section \<open>sm9/bn256: the prime field\<close>

text \<open>
  A \<open>gfP\<close> is four 64-bit limbs holding an integer in Montgomery form. The model keeps
  the integer the limbs encode; Go's array comparison \<open>*a == *b\<close> is equality of
  these integers.
\<close>

type_synonym gfP = int


definition p :: int where
  "p = 0xB640000002A3A6F1D603AB4FF58EC74521F2934B1A7AEEDBE56F9B27E351457D"

definition R :: int where
  "R = 2 ^ 256"

definition rInv :: int where
  "rInv = 0x7D2BC576FDF597D1CDA02D92D4D62924E74504E9A96B56CC0A1C7970E5DF544D"

text \<open>
  Modelled from the spec: entering the Montgomery domain (\<open>ToMont\<close>, used by
  \<open>newGFp\<close> and \<open>fromBigInt\<close>, whose file is not among the sources): the stored
  integer is \<open>a * R mod p\<close>.
\<close>

definition montEncode :: "int \<Rightarrow> gfP" where
  "montEncode a = (a * R) mod p"

definition zero :: gfP where
  "zero = montEncode 0"

definition one :: gfP where
  "one = montEncode 1"

text \<open>
  Modelled from the spec: the bodies of \<open>gfpNeg\<close>, \<open>gfpAdd\<close>, \<open>gfpSub\<close> and
  \<open>gfpMul\<close> are assembly that is not among the sources (only their declarations are).
  Add: \<open>c = a + b mod p\<close>; Sub: \<open>c = a - b mod p\<close>; Neg: \<open>c = p - a\<close> when
  \<open>a \<noteq> 0\<close>, else 0; Mul: the Montgomery product \<open>a * b * R\<^sup>-\<^sup>1 mod p\<close>.
\<close>

definition gfpNeg :: "gfP \<Rightarrow> gfP" where
  "gfpNeg a = (if a = 0 then 0 else p - a)"

definition gfpAdd :: "gfP \<Rightarrow> gfP \<Rightarrow> gfP" where
  "gfpAdd a b = (a + b) mod p"

definition gfpSub :: "gfP \<Rightarrow> gfP \<Rightarrow> gfP" where
  "gfpSub a b = (a - b) mod p"

definition gfpMul :: "gfP \<Rightarrow> gfP \<Rightarrow> gfP" where
  "gfpMul a b = (a * b * rInv) mod p"

text \<open>
  Modelled from the spec: \<open>gfP.Invert\<close> (not among the sources) is the modular inverse
  by Fermat, \<open>a ^ (p - 2)\<close>, computed with Montgomery products so that the result is in
  Montgomery form when the input is.
\<close>

primrec gfpPow :: "gfP \<Rightarrow> nat \<Rightarrow> gfP" where
  "gfpPow a 0 = one"
| "gfpPow a (Suc n) = gfpMul a (gfpPow a n)"

definition Invert :: "gfP \<Rightarrow> gfP" where
  "Invert a = gfpPow a (nat (p - 2))"

text \<open>Division in the field, in the Montgomery domain: \<open>a / b = a * b\<^sup>-\<^sup>1\<close>.\<close>

definition gfpDiv :: "gfP \<Rightarrow> gfP \<Rightarrow> gfP" where
  "gfpDiv a b = gfpMul a (Invert b)"

text \<open>
  Modelled from the spec: \<open>gfP.Select\<close> (not among the sources) sets \<open>c\<close> to \<open>a\<close>
  if \<open>cond = 1\<close>, else to \<open>b\<close>.
\<close>

definition gfP_Select :: "gfP \<Rightarrow> gfP \<Rightarrow> int \<Rightarrow> gfP" where
  "gfP_Select a b cond = (if cond = 1 then a else b)"

section \<open>sm9/bn256: curve points\<close>

record curvePoint =
  x :: gfP
  y :: gfP
  z :: gfP
  t :: gfP

text \<open>
  A method with receiver \<open>c\<close> takes the receiver's value first and returns its new
  value. The receiver is a location of its own (the callers below pass fresh locals), so
  the fields it does not write keep their values.
\<close>

definition Set_point :: "curvePoint \<Rightarrow> curvePoint \<Rightarrow> curvePoint" where
  "Set_point c a = c\<lparr>x := x a, y := y a, z := z a, t := t a\<rparr>"

definition SetInfinity :: "curvePoint \<Rightarrow> curvePoint" where
  "SetInfinity c = c\<lparr>x := zero, y := one, z := zero, t := zero\<rparr>"

definition IsInfinity :: "curvePoint \<Rightarrow> bool" where
  "IsInfinity c = (z c = zero)"

definition Double :: "curvePoint \<Rightarrow> curvePoint \<Rightarrow> curvePoint" where
  "Double c a =
    (let A = gfpMul (x a) (x a);
         B = gfpMul (y a) (y a);
         C = gfpMul B B;
         t1 = gfpAdd (x a) B;
         t2 = gfpMul t1 t1;
         t1 = gfpSub t2 A;
         t2 = gfpSub t1 C;
         d = gfpAdd t2 t2;
         t1 = gfpAdd A A;
         e = gfpAdd t1 A;
         f = gfpMul e e;
         t1 = gfpAdd d d;
         cx = gfpSub f t1;
         cz = gfpMul (y a) (z a);
         cz = gfpAdd cz cz;
         t1 = gfpAdd C C;
         t2 = gfpAdd t1 t1;
         t1 = gfpAdd t2 t2;
         cy = gfpSub d cx;
         t2 = gfpMul e cy;
         cy = gfpSub t2 t1
     in c\<lparr>x := cx, y := cy, z := cz\<rparr>)"

definition Add :: "curvePoint \<Rightarrow> curvePoint \<Rightarrow> curvePoint \<Rightarrow> curvePoint" where
  "Add c a b =
    (if IsInfinity a then Set_point c b
     else if IsInfinity b then Set_point c a
     else
       let z12 = gfpMul (z a) (z a);
           z22 = gfpMul (z b) (z b);
           u1 = gfpMul (x a) z22;
           u2 = gfpMul (x b) z12;
           t1 = gfpMul (z b) z22;
           s1 = gfpMul (y a) t1;
           t1 = gfpMul (z a) z12;
           s2 = gfpMul (y b) t1;
           h = gfpSub u2 u1;
           xEqual = (h = zero);
           t1 = gfpAdd h h;
           i = gfpMul t1 t1;
           j = gfpMul h i;
           t1 = gfpSub s2 s1;
           yEqual = (t1 = one)
       in if xEqual \<and> yEqual then Double c a
          else
            let r = gfpAdd t1 t1;
                v = gfpMul u1 i;
                t4 = gfpMul r r;
                t1 = gfpAdd v v;
                t6 = gfpSub t4 j;
                cx = gfpSub t6 t1;
                t1 = gfpSub v cx;
                t4 = gfpMul s1 j;
                t6 = gfpAdd t4 t4;
                t4 = gfpMul r t1;
                cy = gfpSub t4 t6;
                t1 = gfpAdd (z a) (z b);
                t4 = gfpMul t1 t1;
                t1 = gfpSub t4 z12;
                t4 = gfpSub t1 z22;
                cz = gfpMul t4 h
            in c\<lparr>x := cx, y := cy, z := cz\<rparr>)"

text \<open>
  \<open>big.Int.BitLen\<close> is the length of the absolute value in bits (0 for 0), and
  \<open>big.Int.Bit\<close> is the bit of the two's complement representation.
\<close>

fun bitLenNat :: "nat \<Rightarrow> nat" where
  "bitLenNat n = (if n = 0 then 0 else Suc (bitLenNat (n div 2)))"

declare bitLenNat.simps [simp del]

definition BitLen :: "int \<Rightarrow> nat" where
  "BitLen k = bitLenNat (nat \<bar>k\<bar>)"

definition Bit :: "int \<Rightarrow> nat \<Rightarrow> nat" where
  "Bit k i = (if bit k i then 1 else 0)"

text \<open>
  The loop of \<open>Mul\<close> runs for \<open>i = BitLen, BitLen - 1, ..., 0\<close>; its state is the pair
  of locals \<open>(sum, t)\<close>.
\<close>

definition Mul_body :: "curvePoint \<Rightarrow> int \<Rightarrow> nat \<Rightarrow> curvePoint \<times> curvePoint \<Rightarrow> curvePoint \<times> curvePoint" where
  "Mul_body a scalar i st =
    (let sum = fst st;
         tp = Double (snd st) sum
     in if Bit scalar i \<noteq> 0 then (Add sum tp a, tp) else (Set_point sum tp, tp))"

fun Mul_loop :: "curvePoint \<Rightarrow> int \<Rightarrow> nat \<Rightarrow> curvePoint \<times> curvePoint \<Rightarrow> curvePoint \<times> curvePoint" where
  "Mul_loop a scalar 0 st = Mul_body a scalar 0 st"
| "Mul_loop a scalar (Suc i) st = Mul_loop a scalar i (Mul_body a scalar (Suc i) st)"

definition Mul :: "curvePoint \<Rightarrow> curvePoint \<Rightarrow> int \<Rightarrow> curvePoint" where
  "Mul c a scalar =
    (let sum = SetInfinity \<lparr>x = 0, y = 0, z = 0, t = 0\<rparr>;
         tp = \<lparr>x = 0, y = 0, z = 0, t = 0\<rparr>;
         st = Mul_loop a scalar (BitLen scalar) (sum, tp)
     in Set_point c (fst st))"

definition MakeAffine :: "curvePoint \<Rightarrow> curvePoint" where
  "MakeAffine c =
    (if z c = one then c
     else if z c = zero then c\<lparr>x := zero, y := one, t := zero\<rparr>
     else
       let zInv = Invert (z c);
           t1 = gfpMul (y c) zInv;
           zInv2 = gfpMul zInv zInv;
           cx = gfpMul (x c) zInv2;
           cy = gfpMul t1 zInv2
       in c\<lparr>x := cx, y := cy, z := one, t := one\<rparr>)"

text \<open>\<open>curvePoint.Select\<close> sets \<open>q\<close> to \<open>p1\<close> if \<open>cond = 1\<close>, and to \<open>p2\<close> if \<open>cond = 0\<close>.\<close>

definition Select :: "curvePoint \<Rightarrow> curvePoint \<Rightarrow> curvePoint \<Rightarrow> int \<Rightarrow> curvePoint" where
  "Select q p1 p2 cond =
     q\<lparr>x := gfP_Select (x p1) (x p2) cond,
       y := gfP_Select (y p1) (y p2) cond,
       z := gfP_Select (z p1) (z p2) cond,
       t := gfP_Select (t p1) (t p2) cond\<rparr>"

text \<open>\<open>subtle.ConstantTimeByteEq\<close> of Go's library: 1 if the bytes are equal, else 0.\<close>

definition ConstantTimeByteEq :: "8 word \<Rightarrow> 8 word \<Rightarrow> int" where
  "ConstantTimeByteEq a b = (if a = b then 1 else 0)"

datatype error = Panic string

text \<open>
  A \<open>curvePointTable\<close> is an array of 15 points; \<open>range table\<close> visits the entries in
  order with their indices \<open>i = 0, ..., 14\<close>.
\<close>

type_synonym curvePointTable = "curvePoint list"

definition table_Select :: "curvePointTable \<Rightarrow> curvePoint \<Rightarrow> 8 word \<Rightarrow> error + curvePoint" where
  "table_Select table pt n =
    (if n \<ge> 16 then
       Inl (Panic ''sm9: internal error: curvePointTable called with out-of-bounds value'')
     else
       Inr (fold (\<lambda>(i, f) pt. Select pt f pt (ConstantTimeByteEq (word_of_nat (i + 1)) n))
              (enumerate 0 table) (SetInfinity pt)))"

section \<open>sm9/bn256: constants and inputs\<close>

text \<open>
  Modelled from the spec: \<open>fromBigInt\<close> (not among the sources) stores an integer in
  Montgomery form.
\<close>

definition fromBigInt :: "int \<Rightarrow> gfP" where
  "fromBigInt v = montEncode v"

definition curveGen :: curvePoint where
  "curveGen =
    \<lparr>x = fromBigInt 0x93DE051D62BF718FF5ED0704487D01D6E1E4086909DC3280E8C4E4817C66DDDD,
     y = fromBigInt 0x21FE8DDA4F21E607631065125C395BBC1C1C00CBFA6024350C464CD70A3EA616,
     z = one,
     t = one\<rparr>"

text \<open>The zero value \<open>&curvePoint{}\<close> of a fresh point.\<close>

definition newPoint :: curvePoint where
  "newPoint = \<lparr>x = 0, y = 0, z = 0, t = 0\<rparr>"

text \<open>
  The affine point \<open>5 * curveGen\<close>, and its negative \<open>- 5 * curveGen\<close> in Jacobian
  coordinates with \<open>Z = lambda\<close>, where \<open>lambda ^ 3 = - 1 / (2 * y)\<close>.
\<close>

definition fiveGen :: curvePoint where
  "fiveGen =
    \<lparr>x = fromBigInt 0x8A6EC5753BA604EF8C67B74CD00768826DA871F8A8EC814C128975A979D27E16,
     y = fromBigInt 0x37A7CF29DB07308C7CF9DD2C5B7865C84C062DECC6FCF65E1A2FD69E194C8C76,
     z = one,
     t = one\<rparr>"

definition negFiveGen :: curvePoint where
  "negFiveGen =
    \<lparr>x = fromBigInt 0x4DD49A10A77313E5D86099E19EB303AD7B5BEB12AFD985ABF02F1B64EBDDDB47,
     y = fromBigInt 0x5B2000000151D378EB01D5A7FAC763A290F949A58D3D776DF2B7CD93F1A8A2BF,
     z = fromBigInt 0x5818CF1D9C4364479E5A350F1B48FB4472ADC23BD4F4D2BCB723ED69A1A68276,
     t = zero\<rparr>"

text \<open>
  The curve equation in Jacobian coordinates, \<open>Y\<^sup>2 = X\<^sup>3 + 5 Z\<^sup>6\<close>, with the
  constant \<open>curveB = newGFp(5)\<close>.
\<close>

definition curveB :: gfP where
  "curveB = montEncode 5"

definition onCurveJacobian :: "curvePoint \<Rightarrow> bool" where
  "onCurveJacobian c =
    (let z2 = gfpMul (z c) (z c);
         z6 = gfpMul z2 (gfpMul z2 z2);
         x3 = gfpMul (gfpMul (x c) (x c)) (x c)
     in gfpMul (y c) (y c) = gfpAdd x3 (gfpMul curveB z6))"

section \<open>sm9/bn256: exponentiation by the BN parameter\<close>









section \<open>sm3: the block function (arm64 assembly)\<close>

text \<open>
  The registers the block function names. \<open>AX\<close>, \<open>BX\<close>, \<open>CX\<close>, \<open>DX\<close> and \<open>hlp0\<close>
  are scratch; \<open>R19\<close> to \<open>R26\<close> hold the working variables. All are used with their
  32-bit \<open>W\<close> instructions.
\<close>

datatype reg = AX | BX | CX | DX | hlp0 | R19 | R20 | R21 | R22 | R23 | R24 | R25 | R26

text \<open>
  The machine state: the 32-bit registers, the stack frame at \<open>BP\<close> in words, the
  argument slice \<open>p\<close>, the pointers \<open>SI\<close> and \<open>DI\<close> as byte offsets from \<open>p_base\<close>,
  and the eight words of \<open>*dig\<close> at \<open>hlp1\<close>.
\<close>

record sm3 =
  regs :: "reg \<Rightarrow> 32 word"
  frame :: "nat \<Rightarrow> 32 word"
  msg :: "8 word list"
  SI :: int
  DI :: int
  dig :: "nat \<Rightarrow> 32 word"

primrec seq :: "('s \<Rightarrow> 's) list \<Rightarrow> 's \<Rightarrow> 's" where
  "seq [] s = s"
| "seq (f # fs) s = seq fs (f s)"

definition setReg :: "reg \<Rightarrow> 32 word \<Rightarrow> sm3 \<Rightarrow> sm3" where
  "setReg r v s = s\<lparr>regs := (regs s)(r := v)\<rparr>"

text \<open>A little-endian 32-bit load of four bytes, and the byte reversal of \<open>REVW\<close>.\<close>

definition le32 :: "8 word \<Rightarrow> 8 word \<Rightarrow> 8 word \<Rightarrow> 8 word \<Rightarrow> 32 word" where
  "le32 b0 b1 b2 b3 =
     ucast b0 OR push_bit 8 (ucast b1) OR push_bit 16 (ucast b2) OR push_bit 24 (ucast b3)"

definition byteOf :: "nat \<Rightarrow> 32 word \<Rightarrow> 8 word" where
  "byteOf k w = ucast (drop_bit (8 * k) w)"

definition rev32 :: "32 word \<Rightarrow> 32 word" where
  "rev32 w = le32 (byteOf 3 w) (byteOf 2 w) (byteOf 1 w) (byteOf 0 w)"

text \<open>\<open>MOVW (index*4)(SI), dst\<close>\<close>

definition MOVW_SI :: "nat \<Rightarrow> reg \<Rightarrow> sm3 \<Rightarrow> sm3" where
  "MOVW_SI index dst s =
     (let a = nat (SI s) + index * 4
      in setReg dst (le32 (msg s ! a) (msg s ! (a + 1)) (msg s ! (a + 2)) (msg s ! (a + 3))) s)"

text \<open>\<open>MOVW (index*4)(BP), dst\<close> and \<open>MOVW src, (index*4)(BP)\<close>\<close>

definition MOVW_BP :: "nat \<Rightarrow> reg \<Rightarrow> sm3 \<Rightarrow> sm3" where
  "MOVW_BP index dst s = setReg dst (frame s index) s"

definition MOVW_to_BP :: "reg \<Rightarrow> nat \<Rightarrow> sm3 \<Rightarrow> sm3" where
  "MOVW_to_BP src index s = s\<lparr>frame := (frame s)(index := regs s src)\<rparr>"

definition MOVW :: "reg \<Rightarrow> reg \<Rightarrow> sm3 \<Rightarrow> sm3" where
  "MOVW src dst s = setReg dst (regs s src) s"

definition REVW :: "reg \<Rightarrow> reg \<Rightarrow> sm3 \<Rightarrow> sm3" where
  "REVW src dst s = setReg dst (rev32 (regs s src)) s"

definition RORW :: "nat \<Rightarrow> reg \<Rightarrow> sm3 \<Rightarrow> sm3" where
  "RORW n r s = setReg r (word_rotr n (regs s r)) s"

definition EORW :: "reg \<Rightarrow> reg \<Rightarrow> sm3 \<Rightarrow> sm3" where
  "EORW src dst s = setReg dst (regs s dst XOR regs s src) s"

definition ANDW :: "reg \<Rightarrow> reg \<Rightarrow> sm3 \<Rightarrow> sm3" where
  "ANDW src dst s = setReg dst (regs s dst AND regs s src) s"

definition ORRW :: "reg \<Rightarrow> reg \<Rightarrow> sm3 \<Rightarrow> sm3" where
  "ORRW src dst s = setReg dst (regs s dst OR regs s src) s"

definition MVNW :: "reg \<Rightarrow> reg \<Rightarrow> sm3 \<Rightarrow> sm3" where
  "MVNW src dst s = setReg dst (NOT (regs s src)) s"

definition ADDW :: "reg \<Rightarrow> reg \<Rightarrow> sm3 \<Rightarrow> sm3" where
  "ADDW src dst s = setReg dst (regs s dst + regs s src) s"

definition ADDW_const :: "32 word \<Rightarrow> reg \<Rightarrow> sm3 \<Rightarrow> sm3" where
  "ADDW_const c dst s = setReg dst (regs s dst + c) s"

text \<open>\<open>LDPW (i*8)(hlp1), (r1, r2)\<close> and \<open>STPW (r1, r2), (i*8)(hlp1)\<close>\<close>

definition LDPW :: "nat \<Rightarrow> reg \<Rightarrow> reg \<Rightarrow> sm3 \<Rightarrow> sm3" where
  "LDPW i r1 r2 s = setReg r2 (dig s (2 * i + 1)) (setReg r1 (dig s (2 * i)) s)"

definition STPW :: "reg \<Rightarrow> reg \<Rightarrow> nat \<Rightarrow> sm3 \<Rightarrow> sm3" where
  "STPW r1 r2 i s = s\<lparr>dig := (dig s)(2 * i := regs s r1, 2 * i + 1 := regs s r2)\<rparr>"

definition MSGSCHEDULE0 :: "nat \<Rightarrow> sm3 \<Rightarrow> sm3" where
  "MSGSCHEDULE0 index = seq
    [MOVW_SI index AX,
     REVW AX AX,
     MOVW_to_BP AX index]"

definition MSGSCHEDULE01 :: "nat \<Rightarrow> sm3 \<Rightarrow> sm3" where
  "MSGSCHEDULE01 index = seq
    [MOVW_SI (index + 4) AX,
     REVW AX AX,
     MOVW_to_BP AX (index + 4)]"

definition MSGSCHEDULE1 :: "nat \<Rightarrow> sm3 \<Rightarrow> sm3" where
  "MSGSCHEDULE1 index = seq
    [MOVW_BP (index + 1) AX,
     RORW 17 AX,
     MOVW_BP (index - 12) BX,
     EORW BX AX,
     MOVW_BP (index - 5) BX,
     EORW BX AX,
     MOVW AX BX,
     RORW 17 BX,
     MOVW AX CX,
     RORW 9 CX,
     EORW BX AX,
     EORW CX AX,
     MOVW_BP (index - 9) BX,
     RORW 25 BX,
     MOVW_BP (index - 2) CX,
     EORW BX AX,
     EORW CX AX,
     MOVW_to_BP AX (index + 4)]"

definition SM3SS1 :: "32 word \<Rightarrow> reg \<Rightarrow> reg \<Rightarrow> sm3 \<Rightarrow> sm3" where
  "SM3SS1 const a e = seq
    [MOVW a BX,
     RORW 20 BX,
     ADDW e BX,
     ADDW_const const BX,
     RORW 25 BX]"

definition SM3TT10 :: "nat \<Rightarrow> reg \<Rightarrow> reg \<Rightarrow> reg \<Rightarrow> reg \<Rightarrow> sm3 \<Rightarrow> sm3" where
  "SM3TT10 index a b c d = seq
    [MOVW a CX,
     MOVW b DX,
     EORW CX DX,
     MOVW c hlp0,
     EORW hlp0 DX,
     ADDW d DX,
     MOVW_BP index hlp0,
     EORW hlp0 AX,
     ADDW AX DX,
     RORW 20 CX,
     EORW BX CX,
     ADDW DX CX]"

definition SM3TT20 :: "reg \<Rightarrow> reg \<Rightarrow> reg \<Rightarrow> reg \<Rightarrow> sm3 \<Rightarrow> sm3" where
  "SM3TT20 e f g h = seq
    [ADDW h hlp0,
     ADDW BX hlp0,
     MOVW e BX,
     MOVW f DX,
     EORW DX BX,
     MOVW g DX,
     EORW DX BX,
     ADDW hlp0 BX]"

definition SM3TT11 :: "nat \<Rightarrow> reg \<Rightarrow> reg \<Rightarrow> reg \<Rightarrow> reg \<Rightarrow> sm3 \<Rightarrow> sm3" where
  "SM3TT11 index a b c d = seq
    [MOVW a CX,
     MOVW b DX,
     ANDW CX DX,
     MOVW c hlp0,
     ANDW hlp0 CX,
     ORRW DX CX,
     MOVW b DX,
     ANDW hlp0 DX,
     ORRW CX DX,
     ADDW d DX,
     MOVW a CX,
     RORW 20 CX,
     EORW BX CX,
     ADDW DX CX,
     MOVW_BP index hlp0,
     EORW hlp0 AX,
     ADDW AX CX]"

definition SM3TT21 :: "reg \<Rightarrow> reg \<Rightarrow> reg \<Rightarrow> reg \<Rightarrow> sm3 \<Rightarrow> sm3" where
  "SM3TT21 e f g h = seq
    [ADDW h hlp0,
     ADDW BX hlp0,
     MOVW e BX,
     MOVW f DX,
     ANDW BX DX,
     MVNW BX BX,
     MOVW g AX,
     ANDW AX BX,
     ORRW DX BX,
     ADDW hlp0 BX]"

definition COPYRESULT :: "reg \<Rightarrow> reg \<Rightarrow> reg \<Rightarrow> reg \<Rightarrow> sm3 \<Rightarrow> sm3" where
  "COPYRESULT b d f h = seq
    [RORW 23 b,
     MOVW CX h,
     RORW 13 f,
     MOVW BX CX,
     RORW 23 CX,
     EORW BX CX,
     RORW 15 BX,
     EORW BX CX,
     MOVW CX d]"

definition SM3ROUND0 ::
  "nat \<Rightarrow> 32 word \<Rightarrow> reg \<Rightarrow> reg \<Rightarrow> reg \<Rightarrow> reg \<Rightarrow> reg \<Rightarrow> reg \<Rightarrow> reg \<Rightarrow> reg \<Rightarrow> sm3 \<Rightarrow> sm3" where
  "SM3ROUND0 index const a b c d e f g h = seq
    [MSGSCHEDULE01 index,
     SM3SS1 const a e,
     SM3TT10 index a b c d,
     SM3TT20 e f g h,
     COPYRESULT b d f h]"

definition SM3ROUND1 ::
  "nat \<Rightarrow> 32 word \<Rightarrow> reg \<Rightarrow> reg \<Rightarrow> reg \<Rightarrow> reg \<Rightarrow> reg \<Rightarrow> reg \<Rightarrow> reg \<Rightarrow> reg \<Rightarrow> sm3 \<Rightarrow> sm3" where
  "SM3ROUND1 index const a b c d e f g h = seq
    [MSGSCHEDULE1 index,
     SM3SS1 const a e,
     SM3TT10 index a b c d,
     SM3TT20 e f g h,
     COPYRESULT b d f h]"

definition SM3ROUND2 ::
  "nat \<Rightarrow> 32 word \<Rightarrow> reg \<Rightarrow> reg \<Rightarrow> reg \<Rightarrow> reg \<Rightarrow> reg \<Rightarrow> reg \<Rightarrow> reg \<Rightarrow> reg \<Rightarrow> sm3 \<Rightarrow> sm3" where
  "SM3ROUND2 index const a b c d e f g h = seq
    [MSGSCHEDULE1 index,
     SM3SS1 const a e,
     SM3TT11 index a b c d,
     SM3TT21 e f g h,
     COPYRESULT b d f h]"

text \<open>The 64 rounds of one block, between the label \<open>loop\<close> and the final XOR.\<close>

definition block_rounds :: "(sm3 \<Rightarrow> sm3) list" where
  "block_rounds =
    [MSGSCHEDULE0 0,
     MSGSCHEDULE0 1,
     MSGSCHEDULE0 2,
     MSGSCHEDULE0 3,
     SM3ROUND0 0 0x79cc4519 R19 R20 R21 R22 R23 R24 R25 R26,
     SM3ROUND0 1 0xf3988a32 R26 R19 R20 R21 R22 R23 R24 R25,
     SM3ROUND0 2 0xe7311465 R25 R26 R19 R20 R21 R22 R23 R24,
     SM3ROUND0 3 0xce6228cb R24 R25 R26 R19 R20 R21 R22 R23,
     SM3ROUND0 4 0x9cc45197 R23 R24 R25 R26 R19 R20 R21 R22,
     SM3ROUND0 5 0x3988a32f R22 R23 R24 R25 R26 R19 R20 R21,
     SM3ROUND0 6 0x7311465e R21 R22 R23 R24 R25 R26 R19 R20,
     SM3ROUND0 7 0xe6228cbc R20 R21 R22 R23 R24 R25 R26 R19,
     SM3ROUND0 8 0xcc451979 R19 R20 R21 R22 R23 R24 R25 R26,
     SM3ROUND0 9 0x988a32f3 R26 R19 R20 R21 R22 R23 R24 R25,
     SM3ROUND0 10 0x311465e7 R25 R26 R19 R20 R21 R22 R23 R24,
     SM3ROUND0 11 0x6228cbce R24 R25 R26 R19 R20 R21 R22 R23,
     SM3ROUND1 12 0xc451979c R23 R24 R25 R26 R19 R20 R21 R22,
     SM3ROUND1 13 0x88a32f39 R22 R23 R24 R25 R26 R19 R20 R21,
     SM3ROUND1 14 0x11465e73 R21 R22 R23 R24 R25 R26 R19 R20,
     SM3ROUND1 15 0x228cbce6 R20 R21 R22 R23 R24 R25 R26 R19,
     SM3ROUND2 16 0x9d8a7a87 R19 R20 R21 R22 R23 R24 R25 R26,
     SM3ROUND2 17 0x3b14f50f R26 R19 R20 R21 R22 R23 R24 R25,
     SM3ROUND2 18 0x7629ea1e R25 R26 R19 R20 R21 R22 R23 R24,
     SM3ROUND2 19 0xec53d43c R24 R25 R26 R19 R20 R21 R22 R23,
     SM3ROUND2 20 0xd8a7a879 R23 R24 R25 R26 R19 R20 R21 R22,
     SM3ROUND2 21 0xb14f50f3 R22 R23 R24 R25 R26 R19 R20 R21,
     SM3ROUND2 22 0x629ea1e7 R21 R22 R23 R24 R25 R26 R19 R20,
     SM3ROUND2 23 0xc53d43ce R20 R21 R22 R23 R24 R25 R26 R19,
     SM3ROUND2 24 0x8a7a879d R19 R20 R21 R22 R23 R24 R25 R26,
     SM3ROUND2 25 0x14f50f3b R26 R19 R20 R21 R22 R23 R24 R25,
     SM3ROUND2 26 0x29ea1e76 R25 R26 R19 R20 R21 R22 R23 R24,
     SM3ROUND2 27 0x53d43cec R24 R25 R26 R19 R20 R21 R22 R23,
     SM3ROUND2 28 0xa7a879d8 R23 R24 R25 R26 R19 R20 R21 R22,
     SM3ROUND2 29 0x4f50f3b1 R22 R23 R24 R25 R26 R19 R20 R21,
     SM3ROUND2 30 0x9ea1e762 R21 R22 R23 R24 R25 R26 R19 R20,
     SM3ROUND2 31 0x3d43cec5 R20 R21 R22 R23 R24 R25 R26 R19,
     SM3ROUND2 32 0x7a879d8a R19 R20 R21 R22 R23 R24 R25 R26,
     SM3ROUND2 33 0xf50f3b14 R26 R19 R20 R21 R22 R23 R24 R25,
     SM3ROUND2 34 0xea1e7629 R25 R26 R19 R20 R21 R22 R23 R24,
     SM3ROUND2 35 0xd43cec53 R24 R25 R26 R19 R20 R21 R22 R23,
     SM3ROUND2 36 0xa879d8a7 R23 R24 R25 R26 R19 R20 R21 R22,
     SM3ROUND2 37 0x50f3b14f R22 R23 R24 R25 R26 R19 R20 R21,
     SM3ROUND2 38 0xa1e7629e R21 R22 R23 R24 R25 R26 R19 R20,
     SM3ROUND2 39 0x43cec53d R20 R21 R22 R23 R24 R25 R26 R19,
     SM3ROUND2 40 0x879d8a7a R19 R20 R21 R22 R23 R24 R25 R26,
     SM3ROUND2 41 0xf3b14f5 R26 R19 R20 R21 R22 R23 R24 R25,
     SM3ROUND2 42 0x1e7629ea R25 R26 R19 R20 R21 R22 R23 R24,
     SM3ROUND2 43 0x3cec53d4 R24 R25 R26 R19 R20 R21 R22 R23,
     SM3ROUND2 44 0x79d8a7a8 R23 R24 R25 R26 R19 R20 R21 R22,
     SM3ROUND2 45 0xf3b14f50 R22 R23 R24 R25 R26 R19 R20 R21,
     SM3ROUND2 46 0xe7629ea1 R21 R22 R23 R24 R25 R26 R19 R20,
     SM3ROUND2 47 0xcec53d43 R20 R21 R22 R23 R24 R25 R26 R19,
     SM3ROUND2 48 0x9d8a7a87 R19 R20 R21 R22 R23 R24 R25 R26,
     SM3ROUND2 49 0x3b14f50f R26 R19 R20 R21 R22 R23 R24 R25,
     SM3ROUND2 50 0x7629ea1e R25 R26 R19 R20 R21 R22 R23 R24,
     SM3ROUND2 51 0xec53d43c R24 R25 R26 R19 R20 R21 R22 R23,
     SM3ROUND2 52 0xd8a7a879 R23 R24 R25 R26 R19 R20 R21 R22,
     SM3ROUND2 53 0xb14f50f3 R22 R23 R24 R25 R26 R19 R20 R21,
     SM3ROUND2 54 0x629ea1e7 R21 R22 R23 R24 R25 R26 R19 R20,
     SM3ROUND2 55 0xc53d43ce R20 R21 R22 R23 R24 R25 R26 R19,
     SM3ROUND2 56 0x8a7a879d R19 R20 R21 R22 R23 R24 R25 R26,
     SM3ROUND2 57 0x14f50f3b R26 R19 R20 R21 R22 R23 R24 R25,
     SM3ROUND2 58 0x29ea1e76 R25 R26 R19 R20 R21 R22 R23 R24,
     SM3ROUND2 59 0x53d43cec R24 R25 R26 R19 R20 R21 R22 R23,
     SM3ROUND2 60 0xa7a879d8 R23 R24 R25 R26 R19 R20 R21 R22,
     SM3ROUND2 61 0x4f50f3b1 R22 R23 R24 R25 R26 R19 R20 R21,
     SM3ROUND2 62 0x9ea1e762 R21 R22 R23 R24 R25 R26 R19 R20,
     SM3ROUND2 63 0x3d43cec5 R20 R21 R22 R23 R24 R25 R26 R19]"

text \<open>The XOR of the working variables into \<open>*dig\<close>, and the advance of \<open>SI\<close>.\<close>

definition block_finish :: "(sm3 \<Rightarrow> sm3) list" where
  "block_finish =
    [LDPW 0 AX BX,
     EORW AX R19,
     EORW BX R20,
     STPW R19 R20 0,
     LDPW 1 AX BX,
     EORW AX R21,
     EORW BX R22,
     STPW R21 R22 1,
     LDPW 2 AX BX,
     EORW AX R23,
     EORW BX R24,
     STPW R23 R24 2,
     LDPW 3 AX BX,
     EORW AX R25,
     EORW BX R26,
     STPW R25 R26 3,
     (\<lambda>s. s\<lparr>SI := SI s + 64\<rparr>)]"

definition block_body :: "sm3 \<Rightarrow> sm3" where
  "block_body = seq (block_rounds @ block_finish)"

text \<open>
  The loop is left when \<open>SI\<close> reaches \<open>DI\<close> (\<open>CMP SI, DI; BNE loop\<close>); a state in
  which it never does has no result.
\<close>

partial_function (option) block_loop :: "sm3 \<Rightarrow> sm3 option" where
  "block_loop s =
     (let s' = block_body s
      in if SI s' \<noteq> DI s' then block_loop s' else Some s')"

text \<open>
  \<open>block(dig, p)\<close>, started with the registers \<open>r\<close> and the stack frame \<open>w\<close> it
  finds. \<open>DX\<close> is first the 64-bit length (an \<open>int\<close> here), later a 32-bit scratch
  register of the rounds.
\<close>

definition block :: "(reg \<Rightarrow> 32 word) \<Rightarrow> (nat \<Rightarrow> 32 word) \<Rightarrow> (nat \<Rightarrow> 32 word) \<Rightarrow> 8 word list \<Rightarrow> sm3 option" where
  "block r w d p' =
     (let s = \<lparr>regs = r, frame = w, msg = p', SI = 0, DI = 0, dig = d\<rparr>;
          len = int (length p') AND NOT 63
      in if len = 0 then Some s
         else block_loop
           (seq [LDPW 0 R19 R20, LDPW 1 R21 R22, LDPW 2 R23 R24, LDPW 3 R25 R26]
              (s\<lparr>DI := SI s + len\<rparr>)))"

section \<open>sm3: the compression function as specified\<close>

text \<open>
  The compression function in the words of its specification: the 16 big-endian words of
  the block are expanded into \<open>W[0..67]\<close> by the schedule
  \<open>W[j] = P1(W[j-16] XOR W[j-9] XOR rotl15(W[j-3])) XOR rotl7(W[j-13]) XOR W[j-6]\<close>,
  and \<open>W'[j] = W[j] XOR W[j+4]\<close>.
\<close>

definition be32 :: "8 word \<Rightarrow> 8 word \<Rightarrow> 8 word \<Rightarrow> 8 word \<Rightarrow> 32 word" where
  "be32 b0 b1 b2 b3 =
     push_bit 24 (ucast b0) OR push_bit 16 (ucast b1) OR push_bit 8 (ucast b2) OR ucast b3"

definition rotl :: "nat \<Rightarrow> 32 word \<Rightarrow> 32 word" where
  "rotl n w = word_rotl n w"

definition P0 :: "32 word \<Rightarrow> 32 word" where
  "P0 v = v XOR rotl 9 v XOR rotl 17 v"

definition P1 :: "32 word \<Rightarrow> 32 word" where
  "P1 v = v XOR rotl 15 v XOR rotl 23 v"

function spec_W :: "8 word list \<Rightarrow> nat \<Rightarrow> 32 word" where
  "spec_W blk j =
     (if j < 16 then be32 (blk ! (4 * j)) (blk ! (4 * j + 1)) (blk ! (4 * j + 2)) (blk ! (4 * j + 3))
      else P1 (spec_W blk (j - 16) XOR spec_W blk (j - 9) XOR rotl 15 (spec_W blk (j - 3)))
           XOR rotl 7 (spec_W blk (j - 13)) XOR spec_W blk (j - 6))"
  by pat_completeness auto
termination
  by (relation "measure snd") auto

declare spec_W.simps [simp del]

definition Tj :: "nat \<Rightarrow> 32 word" where
  "Tj j = (if j < 16 then 0x79CC4519 else 0x7A879D8A)"

definition FF :: "nat \<Rightarrow> 32 word \<Rightarrow> 32 word \<Rightarrow> 32 word \<Rightarrow> 32 word" where
  "FF j a b c = (if j < 16 then a XOR b XOR c else (a AND b) OR (a AND c) OR (b AND c))"

definition GG :: "nat \<Rightarrow> 32 word \<Rightarrow> 32 word \<Rightarrow> 32 word \<Rightarrow> 32 word" where
  "GG j e f g = (if j < 16 then e XOR f XOR g else (e AND f) OR (NOT e AND g))"

type_synonym vars = "32 word \<times> 32 word \<times> 32 word \<times> 32 word \<times> 32 word \<times> 32 word \<times> 32 word \<times> 32 word"

definition spec_round :: "(nat \<Rightarrow> 32 word) \<Rightarrow> nat \<Rightarrow> vars \<Rightarrow> vars" where
  "spec_round W j v =
     (case v of (A, B, C, D, E, F, G, H) \<Rightarrow>
        let SS1 = rotl 7 (rotl 12 A + E + rotl j (Tj j));
            SS2 = SS1 XOR rotl 12 A;
            TT1 = FF j A B C + D + SS2 + (W j XOR W (j + 4));
            TT2 = GG j E F G + H + SS1 + W j
        in (TT1, A, rotl 9 B, C, P0 TT2, E, rotl 19 F, G))"

primrec spec_rounds :: "(nat \<Rightarrow> 32 word) \<Rightarrow> nat \<Rightarrow> vars \<Rightarrow> vars" where
  "spec_rounds W 0 v = v"
| "spec_rounds W (Suc j) v = spec_round W j (spec_rounds W j v)"

definition vars_of :: "(nat \<Rightarrow> 32 word) \<Rightarrow> vars" where
  "vars_of h = (h 0, h 1, h 2, h 3, h 4, h 5, h 6, h 7)"

definition xor_vars :: "(nat \<Rightarrow> 32 word) \<Rightarrow> vars \<Rightarrow> nat \<Rightarrow> 32 word" where
  "xor_vars h v =
     (case v of (A, B, C, D, E, F, G, H) \<Rightarrow>
        h(0 := h 0 XOR A, 1 := h 1 XOR B, 2 := h 2 XOR C, 3 := h 3 XOR D,
          4 := h 4 XOR E, 5 := h 5 XOR F, 6 := h 6 XOR G, 7 := h 7 XOR H))"

definition spec_compress :: "(nat \<Rightarrow> 32 word) \<Rightarrow> 8 word list \<Rightarrow> nat \<Rightarrow> 32 word" where
  "spec_compress h blk = xor_vars h (spec_rounds (spec_W blk) 64 (vars_of h))"

text \<open>The complete 64-byte blocks of a message, in order.\<close>

definition blocks_of :: "8 word list \<Rightarrow> 8 word list list" where
  "blocks_of m = map (\<lambda>i. take 64 (drop (64 * i) m)) [0..<length m div 64]"

text \<open>
  The pattern of the 64 round calls: round \<open>j\<close> is \<open>SM3ROUND0\<close> for \<open>j < 12\<close>,
  \<open>SM3ROUND1\<close> for \<open>12 \<le> j < 16\<close> and \<open>SM3ROUND2\<close> from 16 on, its constant is
  \<open>T\<^sub>j\<close> rotated left by \<open>j\<close>, and its register arguments are those of the round
  before, rotated by one place.
\<close>

definition regName :: "nat \<Rightarrow> reg" where
  "regName i = [R19, R20, R21, R22, R23, R24, R25, R26] ! (i mod 8)"

definition roundCall :: "nat \<Rightarrow> sm3 \<Rightarrow> sm3" where
  "roundCall j =
     (if j < 12 then SM3ROUND0 else if j < 16 then SM3ROUND1 else SM3ROUND2)
       j (rotl j (Tj j))
       (regName (7 * j)) (regName (7 * j + 1)) (regName (7 * j + 2)) (regName (7 * j + 3))
       (regName (7 * j + 4)) (regName (7 * j + 5)) (regName (7 * j + 6)) (regName (7 * j + 7))"

text \<open>The state in which \<open>block\<close> enters its loop, and the state it returns.\<close>

definition block_entry :: "(reg \<Rightarrow> 32 word) \<Rightarrow> (nat \<Rightarrow> 32 word) \<Rightarrow> (nat \<Rightarrow> 32 word) \<Rightarrow> 8 word list \<Rightarrow> sm3" where
  "block_entry r w d p' =
     seq [LDPW 0 R19 R20, LDPW 1 R21 R22, LDPW 2 R23 R24, LDPW 3 R25 R26]
       \<lparr>regs = r, frame = w, msg = p', SI = 0, DI = int (length p') AND NOT 63, dig = d\<rparr>"

section \<open>Field arithmetic lemmas\<close>

lemma p_pos: "0 < p"
  by (simp add: p_def)

lemma R_rInv: "(R * rInv) mod p = 1"
proof -
  have "R * rInv = 0xAFD2BAC5558A13B3966A4B291522B137181AE39613C8DBAF892BC42C2F2EE42B * p + 1"
    by (simp add: R_def rInv_def p_def)
  then show ?thesis
    using p_pos by (simp add: p_def)
qed

lemma gfpMul_commute: "gfpMul a b = gfpMul b a"
  by (simp add: gfpMul_def mult.commute)

lemma gfpMul_assoc: "gfpMul (gfpMul a b) c = gfpMul a (gfpMul b c)"
proof -
  have "gfpMul (gfpMul a b) c = (a * b * rInv * c * rInv) mod p"
    unfolding gfpMul_def by (metis mod_mult_left_eq)
  also have "\<dots> = (a * (b * c * rInv) * rInv) mod p"
    by (simp add: mult.assoc mult.left_commute)
  also have "\<dots> = gfpMul a (gfpMul b c)"
    unfolding gfpMul_def by (metis mod_mult_left_eq mod_mult_right_eq)
  finally show ?thesis .
qed

lemma gfpMul_encode: "gfpMul (montEncode a) (montEncode b) = montEncode (a * b)"
proof -
  have "gfpMul (montEncode a) (montEncode b) = ((a * R) * (b * R) * rInv) mod p"
    unfolding gfpMul_def montEncode_def by (metis mod_mult_eq mod_mult_left_eq)
  also have "\<dots> = ((a * b * R) * (R * rInv)) mod p"
    by (simp add: mult.assoc mult.left_commute)
  also have "\<dots> = ((a * b * R) * ((R * rInv) mod p)) mod p"
    by (metis mod_mult_right_eq)
  also have "\<dots> = montEncode (a * b)"
    by (simp add: R_rInv montEncode_def)
  finally show ?thesis .
qed

lemma gfpAdd_encode: "gfpAdd (montEncode a) (montEncode b) = montEncode (a + b)"
  unfolding gfpAdd_def montEncode_def by (simp add: distrib_right mod_add_eq)

lemma gfpSub_encode: "gfpSub (montEncode a) (montEncode b) = montEncode (a - b)"
  unfolding gfpSub_def montEncode_def by (simp add: left_diff_distrib mod_diff_eq)

lemma montEncode_eq_iff: "montEncode a = montEncode b \<longleftrightarrow> (a - b) mod p = 0"
proof
  assume "montEncode a = montEncode b"
  then have "(a * R * rInv) mod p = (b * R * rInv) mod p"
    unfolding montEncode_def by (metis mod_mult_left_eq)
  then have "(a * ((R * rInv) mod p)) mod p = (b * ((R * rInv) mod p)) mod p"
    by (simp add: mult.assoc mod_mult_right_eq)
  then have "a mod p = b mod p"
    by (simp add: R_rInv)
  then show "(a - b) mod p = 0"
    by (metis mod_diff_eq cancel_comm_monoid_add_class.diff_cancel mod_0)
next
  assume "(a - b) mod p = 0"
  then have "a mod p = b mod p"
    by (metis mod_eq_dvd_iff dvd_eq_mod_eq_0)
  then show "montEncode a = montEncode b"
    unfolding montEncode_def by (metis mod_mult_left_eq)
qed

lemma gfpMul_one_one: "gfpMul one one = one"
  by (simp add: one_def gfpMul_encode)

lemma gfpPow_mult: "gfpPow (gfpMul a b) n = gfpMul (gfpPow a n) (gfpPow b n)"
proof (induction n)
  case 0
  then show ?case by (simp add: gfpMul_one_one)
next
  case (Suc n)
  have "gfpMul (gfpMul a b) (gfpMul (gfpPow a n) (gfpPow b n))
      = gfpMul (gfpMul a (gfpPow a n)) (gfpMul b (gfpPow b n))"
    by (metis gfpMul_assoc gfpMul_commute)
  with Suc show ?case by simp
qed

lemma Invert_mult: "Invert (gfpMul a b) = gfpMul (Invert a) (Invert b)"
  by (simp add: Invert_def gfpPow_mult)

section \<open>Selecting from a table of multiples\<close>

lemma Select_cond_1: "Select q p1 p2 1 = q\<lparr>x := x p1, y := y p1, z := z p1, t := t p1\<rparr>"
  by (simp add: Select_def gfP_Select_def)

lemma Select_cond_0: "Select q p1 q 0 = q"
  by (simp add: Select_def gfP_Select_def)

lemma Select_self_eq: "Select q p1 q 1 = p1"
  by (simp add: Select_def gfP_Select_def)

lemma byte_of_nat_eq_iff:
  "i < 256 \<Longrightarrow> (word_of_nat i = (n :: 8 word)) \<longleftrightarrow> i = unat n"
  by (auto simp add: unat_of_nat)

lemma select_fold:
  "j + length xs < 256 \<Longrightarrow>
   fold (\<lambda>(i, f) pt. Select pt f pt (ConstantTimeByteEq (word_of_nat (i + 1)) n))
     (enumerate j xs) acc =
   (if j < unat n \<and> unat n \<le> j + length xs then xs ! (unat n - j - 1) else acc)"
proof (induction xs arbitrary: j acc)
  case Nil
  then show ?case by simp
next
  case (Cons a xs)
  have lt: "j + 1 < 256" and rest: "Suc j + length xs < 256"
    using Cons.prems by simp_all
  show ?case
  proof (cases "j + 1 = unat n")
    case True
    then have "ConstantTimeByteEq (word_of_nat (j + 1)) n = 1"
      using byte_of_nat_eq_iff [OF lt, of n] by (simp add: ConstantTimeByteEq_def)
    then show ?thesis
      using Cons.IH [OF rest, of a] True by (simp add: Select_self_eq)
  next
    case False
    then have "ConstantTimeByteEq (word_of_nat (j + 1)) n = 0"
      using byte_of_nat_eq_iff [OF lt, of n] by (simp add: ConstantTimeByteEq_def)
    then show ?thesis
      using Cons.IH [OF rest, of acc] False
      by (auto simp add: Select_cond_0 nth_Cons')
  qed
qed

text \<open>
  C7. \<open>curvePointTable.Select(p, n)\<close> panics for every \<open>n \<ge> 16\<close>; for \<open>n = 0\<close> it
  sets \<open>p\<close> to the point at infinity, and for \<open>1 \<le> n \<le> 15\<close> to the stored multiple
  \<open>table[n - 1]\<close>.
\<close>

theorem table_Select_spec:
  fixes pt :: curvePoint
  assumes "length table = 15"
  shows "table_Select table pt n =
    (if 16 \<le> n then
       Inl (Panic ''sm9: internal error: curvePointTable called with out-of-bounds value'')
     else if n = 0 then Inr \<lparr>x = zero, y = one, z = zero, t = zero\<rparr>
     else Inr (table ! (unat n - 1)))"
proof (cases "16 \<le> n")
  case True
  then show ?thesis by (simp add: table_Select_def)
next
  case False
  then have n16: "unat n < 16"
    by (simp add: word_le_nat_alt)
  have n0: "n = 0 \<longleftrightarrow> unat n = 0"
    by (simp add: unat_eq_0)
  show ?thesis
    using False n16 n0 assms select_fold [of 0 table n "SetInfinity pt"]
    by (auto simp add: table_Select_def SetInfinity_def)
qed

theorem table_Select_spec_witness:
  "length (replicate 14 newPoint @ [curveGen]) = 15
   \<and> table_Select (replicate 14 newPoint @ [curveGen]) newPoint 15 = Inr curveGen
   \<and> table_Select (replicate 14 newPoint @ [curveGen]) newPoint 0
       = Inr \<lparr>x = zero, y = one, z = zero, t = zero\<rparr>
   \<and> table_Select (replicate 14 newPoint @ [curveGen]) newPoint 16
       = Inl (Panic ''sm9: internal error: curvePointTable called with out-of-bounds value'')"
  using table_Select_spec [of "replicate 14 newPoint @ [curveGen]" newPoint 15]
    table_Select_spec [of "replicate 14 newPoint @ [curveGen]" newPoint 0]
    table_Select_spec [of "replicate 14 newPoint @ [curveGen]" newPoint 16]
  by (simp add: nth_append)

section \<open>Making a point affine\<close>

text \<open>
  C8. \<open>MakeAffine\<close> leaves a point with \<open>Z = 1\<close> unchanged, rewrites a point with
  \<open>Z = 0\<close> to the canonical infinity \<open>(0, 1, 0)\<close>, and replaces every other point
  \<open>(X, Y, Z)\<close> with \<open>(X / Z\<^sup>2, Y / Z\<^sup>3, 1)\<close>, where \<open>1\<close> and \<open>0\<close> are the field's
  \<open>one\<close> and \<open>zero\<close> and the division is the product with the inverse.
\<close>

theorem MakeAffine_spec:
  fixes c :: curvePoint
  shows "MakeAffine c =
    (if z c = one then c
     else if z c = zero then \<lparr>x = zero, y = one, z = zero, t = zero\<rparr>
     else \<lparr>x = gfpDiv (x c) (gfpMul (z c) (z c)),
           y = gfpDiv (y c) (gfpMul (z c) (gfpMul (z c) (z c))),
           z = one, t = one\<rparr>)"
proof -
  have y: "gfpMul (gfpMul (y c) (Invert (z c))) (gfpMul (Invert (z c)) (Invert (z c)))
      = gfpMul (y c) (gfpMul (Invert (z c)) (gfpMul (Invert (z c)) (Invert (z c))))"
    by (simp add: gfpMul_assoc)
  show ?thesis
    by (simp add: MakeAffine_def Let_def gfpDiv_def Invert_mult y)
qed


theorem MakeAffine_spec_witness:
  "MakeAffine curveGen = curveGen
   \<and> MakeAffine \<lparr>x = one, y = zero, z = zero, t = one\<rparr> = \<lparr>x = zero, y = one, z = zero, t = zero\<rparr>
   \<and> MakeAffine \<lparr>x = montEncode 3, y = montEncode 4, z = montEncode 2, t = zero\<rparr>
       = \<lparr>x = gfpDiv (montEncode 3) (gfpMul (montEncode 2) (montEncode 2)),
          y = gfpDiv (montEncode 4) (gfpMul (montEncode 2) (gfpMul (montEncode 2) (montEncode 2))),
          z = one, t = one\<rparr>"
proof -
  have "montEncode 2 \<noteq> one" and "montEncode 2 \<noteq> zero" and "zero \<noteq> one"
    by (simp_all add: one_def zero_def montEncode_eq_iff p_def)
  then show ?thesis
    using MakeAffine_spec [of curveGen]
      MakeAffine_spec [of "\<lparr>x = one, y = zero, z = zero, t = one\<rparr>"]
      MakeAffine_spec [of "\<lparr>x = montEncode 3, y = montEncode 4, z = montEncode 2, t = zero\<rparr>"]
    by (simp add: curveGen_def)
qed

section \<open>The doubling case of point addition\<close>

lemmas encode_simps = gfpMul_encode gfpAdd_encode gfpSub_encode montEncode_eq_iff

lemma montEncode_0: "montEncode 0 = 0"
  by (simp add: montEncode_def)

lemma zero_eq_0: "zero = 0"
  by (simp add: zero_def montEncode_0)

lemma one_neq_zero: "one \<noteq> zero"
  by (simp add: one_def zero_def montEncode_eq_iff p_def)

lemma gfpMul_0_right: "gfpMul a 0 = 0"
  by (simp add: gfpMul_def)

lemma gfpMul_0_left: "gfpMul 0 a = 0"
  by (simp add: gfpMul_def)

lemma multiple_mod_p: "v = q * p \<Longrightarrow> v mod p = 0"
  by simp

text \<open>
  When both operands are finite and represent the same point, \<open>h\<close> and \<open>s2 - s1\<close> are
  both \<open>zero\<close>; the test against \<open>one\<close> fails and the general formula yields
  \<open>(0, 0, 0)\<close>.
\<close>

lemma Add_same_point:
  assumes "\<not> IsInfinity a" and "\<not> IsInfinity b"
    and "gfpMul (x a) (gfpMul (z b) (z b)) = gfpMul (x b) (gfpMul (z a) (z a))"
    and "gfpMul (y a) (gfpMul (z b) (gfpMul (z b) (z b)))
       = gfpMul (y b) (gfpMul (z a) (gfpMul (z a) (z a)))"
  shows "Add c a b = c\<lparr>x := zero, y := zero, z := zero\<rparr>"
  using assms one_neq_zero
  by (simp add: Add_def Let_def zero_eq_0 gfpSub_def gfpAdd_def gfpMul_0_right gfpMul_0_left)

text \<open>
  When the X-coordinates agree and \<open>s2 - s1\<close> is \<open>one\<close>, \<open>Add\<close> returns the double of
  its first operand.
\<close>

lemma Add_difference_one:
  assumes "\<not> IsInfinity a" and "\<not> IsInfinity b"
    and "gfpMul (x a) (gfpMul (z b) (z b)) = gfpMul (x b) (gfpMul (z a) (z a))"
    and "gfpSub (gfpMul (y b) (gfpMul (z a) (gfpMul (z a) (z a))))
           (gfpMul (y a) (gfpMul (z b) (gfpMul (z b) (z b)))) = one"
  shows "Add c a b = Double c a"
  using assms
  by (simp add: Add_def Let_def zero_eq_0 gfpSub_def)

lemma Double_z: "z (Double c a) = gfpAdd (gfpMul (y a) (z a)) (gfpMul (y a) (z a))"
  by (simp add: Double_def Let_def)

lemma curveGen_finite: "\<not> IsInfinity curveGen"
  using one_neq_zero by (simp add: IsInfinity_def curveGen_def)

lemma curveGen_onCurve: "onCurveJacobian curveGen"
  unfolding onCurveJacobian_def curveGen_def fromBigInt_def curveB_def one_def Let_def
  apply (simp only: curvePoint.select_convs gfpMul_encode gfpAdd_encode montEncode_eq_iff)
  apply (rule multiple_mod_p [where q = "- 0x454BCB6DBFFC5336DCBFE7B6BDBD5AF1BEB5343166382DB16F245F7D5ABBF6FF9547EDB8A5AE717CA8EAEA64FFE5E0EAC85B2CBFE7CB874A5F275C62BD0C241E"])
  apply (simp add: p_def)
  done

text \<open>
  C1. For finite points \<open>a\<close> and \<open>b\<close> that represent the same point, \<open>Add(c, a, b)\<close>
  is to give what \<open>Double(c, a)\<close> gives. At \<open>a = b = curveGen\<close> (a point of the
  curve) the code gives \<open>(0, 0, 0)\<close> instead, which is not what \<open>Double\<close> gives: the
  double of the generator has \<open>Z \<noteq> 0\<close>.
\<close>

theorem Add_curveGen_curveGen_not_Double:
  "onCurveJacobian curveGen \<and> \<not> IsInfinity curveGen
   \<and> Add newPoint curveGen curveGen = newPoint\<lparr>x := zero, y := zero, z := zero\<rparr>
   \<and> z (Double newPoint curveGen) \<noteq> zero
   \<and> Add newPoint curveGen curveGen \<noteq> Double newPoint curveGen"
proof -
  have add: "Add newPoint curveGen curveGen = newPoint\<lparr>x := zero, y := zero, z := zero\<rparr>"
    by (rule Add_same_point [OF curveGen_finite curveGen_finite]) simp_all
  have dbl: "z (Double newPoint curveGen) \<noteq> zero"
    by (simp add: Double_z curveGen_def fromBigInt_def zero_def one_def encode_simps p_def)
  have "z (Add newPoint curveGen curveGen) = zero"
    by (simp add: add)
  with dbl have "Add newPoint curveGen curveGen \<noteq> Double newPoint curveGen"
    by metis
  with add dbl curveGen_onCurve curveGen_finite show ?thesis by simp
qed


section \<open>Opposite points whose difference is one\<close>

lemma fiveGen_finite: "\<not> IsInfinity fiveGen"
  using one_neq_zero by (simp add: IsInfinity_def fiveGen_def)

lemma negFiveGen_finite: "\<not> IsInfinity negFiveGen"
  by (simp add: IsInfinity_def negFiveGen_def fromBigInt_def zero_def montEncode_eq_iff p_def)

lemma fiveGen_onCurve: "onCurveJacobian fiveGen"
  unfolding onCurveJacobian_def fiveGen_def fromBigInt_def curveB_def one_def Let_def
  apply (simp only: curvePoint.select_convs gfpMul_encode gfpAdd_encode montEncode_eq_iff)
  apply (rule multiple_mod_p [where q = "- 0x38DC37AD555B77F3B734848B5AF1D4AAC7C71E997226288DDDBEB91CA14906C060282811B44D40D99F65EBD4C9E54D13304A200A16829D0F9690C1D4D9E8D96D"])
  apply (simp add: p_def)
  done

lemma negFiveGen_onCurve: "onCurveJacobian negFiveGen"
  unfolding onCurveJacobian_def negFiveGen_def fromBigInt_def curveB_def one_def Let_def
  apply (simp only: curvePoint.select_convs gfpMul_encode gfpAdd_encode montEncode_eq_iff)
  apply (rule multiple_mod_p [where q = "- 0x2FC7218B327F0A0FC46BB041EDBA1560B7FA6165B4D3BA091193FA0CBB432AA36BB997AE1704E2E598800E5F57E6A637DC130DBFDC64947FF1F68C11554CAB3671FBAA44136A96BA6415C49D8ECFE6B70172894A89451E338D6EFBF716E6E879EAC82BF569E76B13147F2432422A8CDF23A1D987E80D9CE09F17688A87FCEACD47FECE8772D886CACD81AE86D04352E7649D7761C144AD0A4005816E58C270E"])
  apply (simp add: p_def)
  done

lemma fiveGen_X_equal:
  "gfpMul (x fiveGen) (gfpMul (z negFiveGen) (z negFiveGen))
   = gfpMul (x negFiveGen) (gfpMul (z fiveGen) (z fiveGen))"
  unfolding fiveGen_def negFiveGen_def fromBigInt_def one_def
  apply (simp only: curvePoint.select_convs gfpMul_encode montEncode_eq_iff)
  apply (rule multiple_mod_p [where q = "0x17071E3ACF5CEF9C1167C848C7E77791AEE4F3B72D82C120EC6D1B879FE02793A5B2BCD70F3905550B347F35E4D93E5921916A0F6CE3282801102FBF74441B65"])
  apply (simp add: p_def)
  done

lemma fiveGen_Y_difference:
  "gfpSub (gfpMul (y negFiveGen) (gfpMul (z fiveGen) (gfpMul (z fiveGen) (z fiveGen))))
     (gfpMul (y fiveGen) (gfpMul (z negFiveGen) (gfpMul (z negFiveGen) (z negFiveGen)))) = one"
  unfolding fiveGen_def negFiveGen_def fromBigInt_def one_def
  apply (simp only: curvePoint.select_convs gfpMul_encode gfpSub_encode montEncode_eq_iff)
  apply (rule multiple_mod_p [where q = "- 0x32F9C370A8C8B7C5BF81B5C25F203B735F7ACD2AE6887E0422419C21DD9BA253DF0AC3C6D3C848E6E1BF6C11D03ABDDB030A1A04D1F4429FD1AFA3EFC4715D9F0970BA391608B8AE750842E7884A7662A78366B3CED048AEB8740C3EEB11E3A"])
  apply (simp add: p_def)
  done

text \<open>
  C9. For finite points \<open>a\<close> and \<open>b\<close> with equal X-coordinates and different
  Y-coordinates, \<open>Add(c, a, b)\<close> is to give the point at infinity. At \<open>a = 5 * curveGen\<close>
  and \<open>b = - a\<close> with \<open>Z = lambda\<close> (both on the curve, X equal, Y different by
  \<open>one\<close>) the code returns \<open>Double(c, a)\<close>, which is not the point at infinity.
\<close>

theorem Add_opposite_points_not_infinity:
  "onCurveJacobian fiveGen \<and> onCurveJacobian negFiveGen
   \<and> \<not> IsInfinity fiveGen \<and> \<not> IsInfinity negFiveGen
   \<and> gfpMul (x fiveGen) (gfpMul (z negFiveGen) (z negFiveGen))
       = gfpMul (x negFiveGen) (gfpMul (z fiveGen) (z fiveGen))
   \<and> gfpMul (y fiveGen) (gfpMul (z negFiveGen) (gfpMul (z negFiveGen) (z negFiveGen)))
       \<noteq> gfpMul (y negFiveGen) (gfpMul (z fiveGen) (gfpMul (z fiveGen) (z fiveGen)))
   \<and> Add newPoint fiveGen negFiveGen = Double newPoint fiveGen
   \<and> \<not> IsInfinity (Add newPoint fiveGen negFiveGen)"
proof -
  have add: "Add newPoint fiveGen negFiveGen = Double newPoint fiveGen"
    by (rule Add_difference_one
        [OF fiveGen_finite negFiveGen_finite fiveGen_X_equal fiveGen_Y_difference])
  have fin: "\<not> IsInfinity (Double newPoint fiveGen)"
    by (simp add: IsInfinity_def Double_z fiveGen_def fromBigInt_def zero_def one_def
        encode_simps p_def)
  have "gfpSub s s \<noteq> one" for s
    using one_neq_zero by (simp add: gfpSub_def zero_eq_0)
  with fiveGen_Y_difference
  have differ: "gfpMul (y fiveGen) (gfpMul (z negFiveGen) (gfpMul (z negFiveGen) (z negFiveGen)))
       \<noteq> gfpMul (y negFiveGen) (gfpMul (z fiveGen) (gfpMul (z fiveGen) (z fiveGen)))"
    by metis
  from add fin differ fiveGen_onCurve negFiveGen_onCurve fiveGen_finite negFiveGen_finite
    fiveGen_X_equal
  show ?thesis by simp
qed

section \<open>The addition chain of \<open>gfP12ExpU\<close>\<close>








section \<open>sm3: bytes, rotations and the instructions\<close>

lemma byteOf_le32:
  "byteOf 0 (le32 b0 b1 b2 b3) = b0"
  "byteOf 1 (le32 b0 b1 b2 b3) = b1"
  "byteOf 2 (le32 b0 b1 b2 b3) = b2"
  "byteOf 3 (le32 b0 b1 b2 b3) = b3"
  unfolding le32_def byteOf_def
  by (rule bit_word_eqI; simp add: bit_simps; fastforce dest: bit_imp_le_length)+


lemma rev32_le32: "rev32 (le32 b0 b1 b2 b3) = be32 b0 b1 b2 b3"
  unfolding rev32_def byteOf_le32 by (simp add: le32_def be32_def ac_simps)


lemma rot_index: "n \<le> 32 \<Longrightarrow> (m + 32 - (32 - n) mod 32) mod 32 = (m + n) mod (32 :: nat)"
proof (cases "n = 0")
  case True
  then show ?thesis by simp
next
  case False
  assume "n \<le> 32"
  with False have "(32 - n) mod 32 = 32 - n" by simp
  moreover have "m + 32 - (32 - n) = m + n" using \<open>n \<le> 32\<close> by simp
  ultimately show ?thesis by simp
qed


lemma rotr_rotl: "n \<le> 32 \<Longrightarrow> word_rotr n (w :: 32 word) = rotl (32 - n) w"
  unfolding rotl_def
  by (rule bit_word_eqI) (simp add: bit_simps rot_index)


lemma rotl_mod: "rotl (n mod 32) w = rotl n w"
  unfolding rotl_def
  by (rule bit_word_eqI) (simp add: bit_simps)

lemmas instr_defs = setReg_def MOVW_BP_def MOVW_to_BP_def MOVW_def REVW_def RORW_def
  EORW_def ANDW_def ORRW_def MVNW_def ADDW_def ADDW_const_def LDPW_def STPW_def


lemma and_not_63: "(k :: int) AND NOT 63 = 64 * (k div 64)"
proof -
  have "k AND NOT (mask 6) = push_bit 6 (drop_bit 6 k)"
    by (rule bit_eqI) (auto simp add: bit_simps)
  then show ?thesis
    by (simp add: mask_eq_exp_minus_1 push_bit_eq_mult drop_bit_eq_div)
qed

lemmas macro_defs = MSGSCHEDULE0_def MSGSCHEDULE01_def MSGSCHEDULE1_def SM3SS1_def SM3TT10_def
  SM3TT20_def SM3TT11_def SM3TT21_def COPYRESULT_def SM3ROUND0_def SM3ROUND1_def SM3ROUND2_def

lemma spec_W_expand:
  "12 \<le> j \<Longrightarrow> spec_W blk (j + 4) =
      P1 (spec_W blk (j - 12) XOR spec_W blk (j - 5) XOR rotl 15 (spec_W blk (Suc j)))
        XOR rotl 7 (spec_W blk (j - 9)) XOR spec_W blk (j - 2)"
  by (subst spec_W.simps) simp

section \<open>The round constants and the pattern of the round calls\<close>

lemma rotated_constants:
    "rotl 0 (Tj 0) = 0x79cc4519"
    "rotl 1 (Tj 1) = 0xf3988a32"
    "rotl 2 (Tj 2) = 0xe7311465"
    "rotl 3 (Tj 3) = 0xce6228cb"
    "rotl 4 (Tj 4) = 0x9cc45197"
    "rotl 5 (Tj 5) = 0x3988a32f"
    "rotl 6 (Tj 6) = 0x7311465e"
    "rotl 7 (Tj 7) = 0xe6228cbc"
    "rotl 8 (Tj 8) = 0xcc451979"
    "rotl 9 (Tj 9) = 0x988a32f3"
    "rotl 10 (Tj 10) = 0x311465e7"
    "rotl 11 (Tj 11) = 0x6228cbce"
    "rotl 12 (Tj 12) = 0xc451979c"
    "rotl 13 (Tj 13) = 0x88a32f39"
    "rotl 14 (Tj 14) = 0x11465e73"
    "rotl 15 (Tj 15) = 0x228cbce6"
    "rotl 16 (Tj 16) = 0x9d8a7a87"
    "rotl 17 (Tj 17) = 0x3b14f50f"
    "rotl 18 (Tj 18) = 0x7629ea1e"
    "rotl 19 (Tj 19) = 0xec53d43c"
    "rotl 20 (Tj 20) = 0xd8a7a879"
    "rotl 21 (Tj 21) = 0xb14f50f3"
    "rotl 22 (Tj 22) = 0x629ea1e7"
    "rotl 23 (Tj 23) = 0xc53d43ce"
    "rotl 24 (Tj 24) = 0x8a7a879d"
    "rotl 25 (Tj 25) = 0x14f50f3b"
    "rotl 26 (Tj 26) = 0x29ea1e76"
    "rotl 27 (Tj 27) = 0x53d43cec"
    "rotl 28 (Tj 28) = 0xa7a879d8"
    "rotl 29 (Tj 29) = 0x4f50f3b1"
    "rotl 30 (Tj 30) = 0x9ea1e762"
    "rotl 31 (Tj 31) = 0x3d43cec5"
    "rotl 32 (Tj 32) = 0x7a879d8a"
    "rotl 33 (Tj 33) = 0xf50f3b14"
    "rotl 34 (Tj 34) = 0xea1e7629"
    "rotl 35 (Tj 35) = 0xd43cec53"
    "rotl 36 (Tj 36) = 0xa879d8a7"
    "rotl 37 (Tj 37) = 0x50f3b14f"
    "rotl 38 (Tj 38) = 0xa1e7629e"
    "rotl 39 (Tj 39) = 0x43cec53d"
    "rotl 40 (Tj 40) = 0x879d8a7a"
    "rotl 41 (Tj 41) = 0xf3b14f5"
    "rotl 42 (Tj 42) = 0x1e7629ea"
    "rotl 43 (Tj 43) = 0x3cec53d4"
    "rotl 44 (Tj 44) = 0x79d8a7a8"
    "rotl 45 (Tj 45) = 0xf3b14f50"
    "rotl 46 (Tj 46) = 0xe7629ea1"
    "rotl 47 (Tj 47) = 0xcec53d43"
    "rotl 48 (Tj 48) = 0x9d8a7a87"
    "rotl 49 (Tj 49) = 0x3b14f50f"
    "rotl 50 (Tj 50) = 0x7629ea1e"
    "rotl 51 (Tj 51) = 0xec53d43c"
    "rotl 52 (Tj 52) = 0xd8a7a879"
    "rotl 53 (Tj 53) = 0xb14f50f3"
    "rotl 54 (Tj 54) = 0x629ea1e7"
    "rotl 55 (Tj 55) = 0xc53d43ce"
    "rotl 56 (Tj 56) = 0x8a7a879d"
    "rotl 57 (Tj 57) = 0x14f50f3b"
    "rotl 58 (Tj 58) = 0x29ea1e76"
    "rotl 59 (Tj 59) = 0x53d43cec"
    "rotl 60 (Tj 60) = 0xa7a879d8"
    "rotl 61 (Tj 61) = 0x4f50f3b1"
    "rotl 62 (Tj 62) = 0x9ea1e762"
    "rotl 63 (Tj 63) = 0x3d43cec5"
  by (simp_all add: rotl_def Tj_def) code_simp+

lemma upt_64:
  "[0..<64] =
     [0, 1, 2, 3, 4, 5, 6, 7]
     @ [8, 9, 10, 11, 12, 13, 14, 15]
     @ [16, 17, 18, 19, 20, 21, 22, 23]
     @ [24, 25, 26, 27, 28, 29, 30, 31]
     @ [32, 33, 34, 35, 36, 37, 38, 39]
     @ [40, 41, 42, 43, 44, 45, 46, 47]
     @ [48, 49, 50, 51, 52, 53, 54, 55]
     @ [56, 57, 58, 59, 60, 61, 62, 63]"
  by code_simp

lemma upt_4: "[0..<4] = [0, 1, 2, 3]"
  by code_simp

lemma block_rounds_pattern:
  "block_rounds = map MSGSCHEDULE0 [0..<4] @ map roundCall [0..<64]"
  unfolding upt_64 upt_4
  by (simp add: block_rounds_def roundCall_def regName_def rotated_constants del: One_nat_def)

lemma regName_period: "regName (8 * q + r) = regName r"
  by (simp add: regName_def)

lemma regName_distinct:
  "distinct [regName i, regName (i + 1), regName (i + 2), regName (i + 3), regName (i + 4),
     regName (i + 5), regName (i + 6), regName (i + 7), AX, BX, CX, DX, hlp0]"
proof -
  define r where "r = i mod 8"
  have i: "i = 8 * (i div 8) + r"
    by (simp add: r_def)
  have "r < 8" by (simp add: r_def)
  then have cases: "r = 0 \<or> r = 1 \<or> r = 2 \<or> r = 3 \<or> r = 4 \<or> r = 5 \<or> r = 6 \<or> r = 7"
    by arith
  have shift: "regName (i + k) = regName (r + k)" for k
    by (subst i) (simp add: regName_period add.assoc)
  have "regName i = regName (r + 0)"
    using shift [of 0] by simp
  note eqs = this shift [of 1] shift [of 2] shift [of 3] shift [of 4] shift [of 5] shift [of 6]
    shift [of 7]
  show ?thesis
    unfolding eqs using cases
    by (elim disjE) (simp_all add: regName_def)
qed

section \<open>One round\<close>

lemma spec_W_load:
  "j < 16 \<Longrightarrow> spec_W blk j =
     be32 (blk ! (4 * j)) (blk ! (4 * j + 1)) (blk ! (4 * j + 2)) (blk ! (4 * j + 3))"
  by (subst spec_W.simps) simp

lemma load_word:
  assumes m: "\<forall>i<64. msg s ! (nat (SI s) + i) = blk ! i" and j: "j < 16"
  shows "MOVW_SI j dst s =
    setReg dst (le32 (blk ! (4 * j)) (blk ! (4 * j + 1)) (blk ! (4 * j + 2)) (blk ! (4 * j + 3))) s"
proof -
  have a: "nat (SI s) + j * 4 = nat (SI s) + 4 * j"
    "nat (SI s) + 4 * j + 1 = nat (SI s) + (4 * j + 1)"
    "nat (SI s) + 4 * j + 2 = nat (SI s) + (4 * j + 2)"
    "nat (SI s) + 4 * j + 3 = nat (SI s) + (4 * j + 3)"
    by simp_all
  have b: "msg s ! (nat (SI s) + 4 * j) = blk ! (4 * j)"
    "msg s ! (nat (SI s) + (4 * j + 1)) = blk ! (4 * j + 1)"
    "msg s ! (nat (SI s) + (4 * j + 2)) = blk ! (4 * j + 2)"
    "msg s ! (nat (SI s) + (4 * j + 3)) = blk ! (4 * j + 3)"
    by (rule m [rule_format], use j in simp)+
  show ?thesis
    unfolding MOVW_SI_def Let_def a b ..
qed

lemma MSGSCHEDULE0_effect:
  assumes m: "\<forall>i<64. msg s ! (nat (SI s) + i) = blk ! i" and j: "j < 16"
  shows "frame (MSGSCHEDULE0 j s) = (frame s)(j := spec_W blk j)"
    and "regs (MSGSCHEDULE0 j s) = (regs s)(AX := spec_W blk j)"
    and "msg (MSGSCHEDULE0 j s) = msg s" and "SI (MSGSCHEDULE0 j s) = SI s"
    and "DI (MSGSCHEDULE0 j s) = DI s" and "dig (MSGSCHEDULE0 j s) = dig s"
  unfolding MSGSCHEDULE0_def spec_W_load [OF j]
  by (simp_all add: instr_defs load_word [OF m j] rev32_le32)

lemma round_effect:
  assumes dist: "distinct [a, b, c, d, e, f, g, h, AX, BX, CX, DX, hlp0]"
    and j: "j < 64"
    and fr: "\<forall>i < j + 4. frame s i = spec_W blk i"
    and m: "\<forall>i<64. msg s ! (nat (SI s) + i) = blk ! i"
    and s': "s' = (if j < 12 then SM3ROUND0 else if j < 16 then SM3ROUND1 else SM3ROUND2)
                    j (rotl j (Tj j)) a b c d e f g h s"
  shows "(regs s' h, regs s' a, regs s' b, regs s' c, regs s' d, regs s' e, regs s' f, regs s' g)
      = spec_round (spec_W blk) j
          (regs s a, regs s b, regs s c, regs s d, regs s e, regs s f, regs s g, regs s h)"
    and "frame s' = (frame s)(j + 4 := spec_W blk (j + 4))"
    and "msg s' = msg s" and "SI s' = SI s" and "DI s' = DI s" and "dig s' = dig s"
proof -
  have "distinct (rev [a, b, c, d, e, f, g, h, AX, BX, CX, DX, hlp0])"
    using dist by (simp only: distinct_rev)
  note ne = dist [simplified] this [simplified]
  have Wj: "frame s j = spec_W blk j"
    using fr by simp
  consider "j < 12" | "12 \<le> j" "j < 16" | "16 \<le> j" by linarith
  then have "(regs s' h, regs s' a, regs s' b, regs s' c, regs s' d, regs s' e, regs s' f, regs s' g)
      = spec_round (spec_W blk) j
          (regs s a, regs s b, regs s c, regs s d, regs s e, regs s f, regs s g, regs s h)
    \<and> frame s' = (frame s)(j + 4 := spec_W blk (j + 4))
    \<and> msg s' = msg s \<and> SI s' = SI s \<and> DI s' = DI s \<and> dig s' = dig s"
  proof cases
    case 1
    then have j4: "j + 4 < 16" and j16: "j < 16" by simp_all
    have s0: "s' = SM3ROUND0 j (rotl j (Tj j)) a b c d e f g h s"
      using 1 s' by simp
    have "regs s' h = fst (spec_round (spec_W blk) j
          (regs s a, regs s b, regs s c, regs s d, regs s e, regs s f, regs s g, regs s h))"
      and "regs s' a = regs s a" and "regs s' b = rotl 9 (regs s b)" and "regs s' c = regs s c"
      and "regs s' d = fst (snd (snd (snd (snd (spec_round (spec_W blk) j
          (regs s a, regs s b, regs s c, regs s d, regs s e, regs s f, regs s g, regs s h))))))"
      and "regs s' e = regs s e" and "regs s' f = rotl 19 (regs s f)" and "regs s' g = regs s g"
      and "frame s' = (frame s)(j + 4 := spec_W blk (j + 4))"
      and "msg s' = msg s" and "SI s' = SI s" and "DI s' = DI s" and "dig s' = dig s"
      unfolding s0 spec_W_load [OF j4]
      by (simp_all add: macro_defs instr_defs Wj rotr_rotl spec_round_def P0_def FF_def GG_def
          Let_def j16 ne load_word [OF m j4] rev32_le32 spec_W_load [OF j4])
        (simp_all add: ac_simps)
    then show ?thesis
      by (simp add: spec_round_def Let_def)
  next
    case 2
    have W: "frame s (Suc j) = spec_W blk (Suc j)" "frame s (j - 12) = spec_W blk (j - 12)"
      "frame s (j - 5) = spec_W blk (j - 5)" "frame s (j - 9) = spec_W blk (j - 9)"
      "frame s (j - 2) = spec_W blk (j - 2)"
      using fr 2 by simp_all
    have s0: "s' = SM3ROUND1 j (rotl j (Tj j)) a b c d e f g h s"
      using 2 s' by simp
    have "regs s' h = fst (spec_round (spec_W blk) j
          (regs s a, regs s b, regs s c, regs s d, regs s e, regs s f, regs s g, regs s h))"
      and "regs s' a = regs s a" and "regs s' b = rotl 9 (regs s b)" and "regs s' c = regs s c"
      and "regs s' d = fst (snd (snd (snd (snd (spec_round (spec_W blk) j
          (regs s a, regs s b, regs s c, regs s d, regs s e, regs s f, regs s g, regs s h))))))"
      and "regs s' e = regs s e" and "regs s' f = rotl 19 (regs s f)" and "regs s' g = regs s g"
      and "frame s' = (frame s)(j + 4 := spec_W blk (j + 4))"
      and "msg s' = msg s" and "SI s' = SI s" and "DI s' = DI s" and "dig s' = dig s"
      unfolding s0
      by (simp_all add: macro_defs instr_defs Wj W rotr_rotl spec_round_def P0_def P1_def FF_def
          GG_def Let_def 2 ne spec_W_expand [OF 2(1)])
        (simp_all add: ac_simps)
    then show ?thesis
      by (simp add: spec_round_def Let_def)
  next
    case 3
    then have j12: "12 \<le> j" and j16: "\<not> j < 16" and j12': "\<not> j < 12" by simp_all
    have W: "frame s (Suc j) = spec_W blk (Suc j)" "frame s (j - 12) = spec_W blk (j - 12)"
      "frame s (j - 5) = spec_W blk (j - 5)" "frame s (j - 9) = spec_W blk (j - 9)"
      "frame s (j - 2) = spec_W blk (j - 2)"
      using fr 3 by simp_all
    have s0: "s' = SM3ROUND2 j (rotl j (Tj j)) a b c d e f g h s"
      using 3 s' by simp
    have "regs s' h = fst (spec_round (spec_W blk) j
          (regs s a, regs s b, regs s c, regs s d, regs s e, regs s f, regs s g, regs s h))"
      and "regs s' a = regs s a" and "regs s' b = rotl 9 (regs s b)" and "regs s' c = regs s c"
      and "regs s' d = fst (snd (snd (snd (snd (spec_round (spec_W blk) j
          (regs s a, regs s b, regs s c, regs s d, regs s e, regs s f, regs s g, regs s h))))))"
      and "regs s' e = regs s e" and "regs s' f = rotl 19 (regs s f)" and "regs s' g = regs s g"
      and "frame s' = (frame s)(j + 4 := spec_W blk (j + 4))"
      and "msg s' = msg s" and "SI s' = SI s" and "DI s' = DI s" and "dig s' = dig s"
      unfolding s0
      by (simp_all add: macro_defs instr_defs Wj W rotr_rotl spec_round_def P0_def P1_def FF_def
          GG_def Let_def j16 ne spec_W_expand [OF j12])
        (simp_all add: ac_simps)
    then show ?thesis
      by (simp add: spec_round_def Let_def)
  qed
  then show "(regs s' h, regs s' a, regs s' b, regs s' c, regs s' d, regs s' e, regs s' f, regs s' g)
      = spec_round (spec_W blk) j
          (regs s a, regs s b, regs s c, regs s d, regs s e, regs s f, regs s g, regs s h)"
    and "frame s' = (frame s)(j + 4 := spec_W blk (j + 4))"
    and "msg s' = msg s" and "SI s' = SI s" and "DI s' = DI s" and "dig s' = dig s"
    by simp_all
qed

section \<open>The 64 rounds of a block\<close>

lemma seq_append: "seq (fs @ gs) s = seq gs (seq fs s)"
  by (induction fs arbitrary: s) simp_all

lemma regName_next:
  "regName (7 * Suc n) = regName (7 * n + 7)"
  "regName (7 * Suc n + 1) = regName (7 * n)"
  "regName (7 * Suc n + 2) = regName (7 * n + 1)"
  "regName (7 * Suc n + 3) = regName (7 * n + 2)"
  "regName (7 * Suc n + 4) = regName (7 * n + 3)"
  "regName (7 * Suc n + 5) = regName (7 * n + 4)"
  "regName (7 * Suc n + 6) = regName (7 * n + 5)"
  "regName (7 * Suc n + 7) = regName (7 * n + 6)"
proof -
  have P: "regName (8 + i) = regName i" for i
    using regName_period [of 1 i] by simp
  have E: "7 * Suc n + 1 = 8 + 7 * n" "7 * Suc n + 2 = 8 + (7 * n + 1)"
    "7 * Suc n + 3 = 8 + (7 * n + 2)" "7 * Suc n + 4 = 8 + (7 * n + 3)"
    "7 * Suc n + 5 = 8 + (7 * n + 4)" "7 * Suc n + 6 = 8 + (7 * n + 5)"
    "7 * Suc n + 7 = 8 + (7 * n + 6)"
    by simp_all
  show "regName (7 * Suc n) = regName (7 * n + 7)"
    by (simp add: add.commute)
  show "regName (7 * Suc n + 1) = regName (7 * n)"
    "regName (7 * Suc n + 2) = regName (7 * n + 1)"
    "regName (7 * Suc n + 3) = regName (7 * n + 2)"
    "regName (7 * Suc n + 4) = regName (7 * n + 3)"
    "regName (7 * Suc n + 5) = regName (7 * n + 4)"
    "regName (7 * Suc n + 6) = regName (7 * n + 5)"
    "regName (7 * Suc n + 7) = regName (7 * n + 6)"
    unfolding E P by (rule refl)+
qed

lemma schedule_start:
  assumes m: "\<forall>i<64. msg s ! (nat (SI s) + i) = blk ! i"
  defines "s' \<equiv> seq (map MSGSCHEDULE0 [0..<4]) s"
  shows "\<forall>i<4. frame s' i = spec_W blk i"
    and "\<forall>r. r \<noteq> AX \<longrightarrow> regs s' r = regs s r"
    and "msg s' = msg s" and "SI s' = SI s" and "DI s' = DI s" and "dig s' = dig s"
proof -
  define s1 where "s1 = MSGSCHEDULE0 0 s"
  define s2 where "s2 = MSGSCHEDULE0 1 s1"
  define s3 where "s3 = MSGSCHEDULE0 2 s2"
  have s': "s' = MSGSCHEDULE0 3 s3"
    by (simp add: s'_def upt_4 s1_def s2_def s3_def del: One_nat_def)
  have e1: "frame s1 = (frame s)(0 := spec_W blk 0)" "regs s1 = (regs s)(AX := spec_W blk 0)"
    "msg s1 = msg s" "SI s1 = SI s" "DI s1 = DI s" "dig s1 = dig s"
    unfolding s1_def by (rule MSGSCHEDULE0_effect [OF m], simp)+
  have m1: "\<forall>i<64. msg s1 ! (nat (SI s1) + i) = blk ! i"
    using m e1 by simp
  have e2: "frame s2 = (frame s1)(1 := spec_W blk 1)" "regs s2 = (regs s1)(AX := spec_W blk 1)"
    "msg s2 = msg s1" "SI s2 = SI s1" "DI s2 = DI s1" "dig s2 = dig s1"
    unfolding s2_def by (rule MSGSCHEDULE0_effect [OF m1], simp)+
  have m2: "\<forall>i<64. msg s2 ! (nat (SI s2) + i) = blk ! i"
    using m1 e2 by simp
  have e3: "frame s3 = (frame s2)(2 := spec_W blk 2)" "regs s3 = (regs s2)(AX := spec_W blk 2)"
    "msg s3 = msg s2" "SI s3 = SI s2" "DI s3 = DI s2" "dig s3 = dig s2"
    unfolding s3_def by (rule MSGSCHEDULE0_effect [OF m2], simp)+
  have m3: "\<forall>i<64. msg s3 ! (nat (SI s3) + i) = blk ! i"
    using m2 e3 by simp
  have e4: "frame s' = (frame s3)(3 := spec_W blk 3)" "regs s' = (regs s3)(AX := spec_W blk 3)"
    "msg s' = msg s3" "SI s' = SI s3" "DI s' = DI s3" "dig s' = dig s3"
    unfolding s' by (rule MSGSCHEDULE0_effect [OF m3], simp)+
  have "i < 4 \<Longrightarrow> i = 0 \<or> i = 1 \<or> i = 2 \<or> i = 3" for i :: nat
    by arith
  then show "\<forall>i<4. frame s' i = spec_W blk i"
    using e1 e2 e3 e4 by auto
  show "\<forall>r. r \<noteq> AX \<longrightarrow> regs s' r = regs s r"
    and "msg s' = msg s" and "SI s' = SI s" and "DI s' = DI s" and "dig s' = dig s"
    using e1 e2 e3 e4 by simp_all
qed

lemma rounds_invariant:
  assumes m: "\<forall>i<64. msg s ! (nat (SI s) + i) = blk ! i"
    and fr: "\<forall>i<4. frame s i = spec_W blk i"
  shows "n \<le> 64 \<Longrightarrow>
    (let s' = seq (map roundCall [0..<n]) s in
     (regs s' (regName (7 * n)), regs s' (regName (7 * n + 1)), regs s' (regName (7 * n + 2)),
      regs s' (regName (7 * n + 3)), regs s' (regName (7 * n + 4)), regs s' (regName (7 * n + 5)),
      regs s' (regName (7 * n + 6)), regs s' (regName (7 * n + 7)))
       = spec_rounds (spec_W blk) n
           (regs s R19, regs s R20, regs s R21, regs s R22, regs s R23, regs s R24, regs s R25,
            regs s R26)
     \<and> (\<forall>i < n + 4. frame s' i = spec_W blk i)
     \<and> msg s' = msg s \<and> SI s' = SI s \<and> DI s' = DI s \<and> dig s' = dig s)"
proof (induction n)
  case 0
  show ?case
    using fr by (simp add: regName_def)
next
  case (Suc n)
  define s1 where "s1 = seq (map roundCall [0..<n]) s"
  define s2 where "s2 = roundCall n s1"
  have s2: "seq (map roundCall [0..<Suc n]) s = s2"
    by (simp add: seq_append s1_def s2_def)
  from Suc have n: "n < 64" and "n \<le> 64" by simp_all
  with Suc.IH have IH:
    "(regs s1 (regName (7 * n)), regs s1 (regName (7 * n + 1)), regs s1 (regName (7 * n + 2)),
      regs s1 (regName (7 * n + 3)), regs s1 (regName (7 * n + 4)), regs s1 (regName (7 * n + 5)),
      regs s1 (regName (7 * n + 6)), regs s1 (regName (7 * n + 7)))
       = spec_rounds (spec_W blk) n
           (regs s R19, regs s R20, regs s R21, regs s R22, regs s R23, regs s R24, regs s R25,
            regs s R26)"
    and fr1: "\<forall>i < n + 4. frame s1 i = spec_W blk i"
    and same: "msg s1 = msg s" "SI s1 = SI s" "DI s1 = DI s" "dig s1 = dig s"
    by (simp_all add: s1_def Let_def)
  have m1: "\<forall>i<64. msg s1 ! (nat (SI s1) + i) = blk ! i"
    using m same by simp
  have call: "s2 = (if n < 12 then SM3ROUND0 else if n < 16 then SM3ROUND1 else SM3ROUND2)
       n (rotl n (Tj n))
       (regName (7 * n)) (regName (7 * n + 1)) (regName (7 * n + 2)) (regName (7 * n + 3))
       (regName (7 * n + 4)) (regName (7 * n + 5)) (regName (7 * n + 6)) (regName (7 * n + 7)) s1"
    by (simp add: s2_def roundCall_def)
  note eff = round_effect [OF regName_distinct n fr1 m1 call]
  have frame2: "\<forall>i < Suc n + 4. frame s2 i = spec_W blk i"
    using eff(2) fr1 by (auto simp add: less_Suc_eq)
  show ?case
    unfolding s2 Let_def regName_next
    using eff(1) IH frame2 eff(3-6) same by simp
qed


section \<open>One block\<close>

lemma block_finish_effect:
  defines "v s \<equiv> (regs s R19, regs s R20, regs s R21, regs s R22, regs s R23, regs s R24,
      regs s R25, regs s R26)"
  shows "dig (seq block_finish s) = xor_vars (dig s) (v s)"
    and "v (seq block_finish s) = vars_of (dig (seq block_finish s))"
    and "SI (seq block_finish s) = SI s + 64" and "DI (seq block_finish s) = DI s"
    and "msg (seq block_finish s) = msg s"
  unfolding v_def
  by (simp_all add: block_finish_def instr_defs xor_vars_def vars_of_def xor.commute)

lemma block_body_effect:
  assumes inv: "(regs s R19, regs s R20, regs s R21, regs s R22, regs s R23, regs s R24,
      regs s R25, regs s R26) = vars_of (dig s)"
    and m: "\<forall>i<64. msg s ! (nat (SI s) + i) = blk ! i"
  defines "s' \<equiv> block_body s"
  shows "dig s' = spec_compress (dig s) blk"
    and "(regs s' R19, regs s' R20, regs s' R21, regs s' R22, regs s' R23, regs s' R24,
      regs s' R25, regs s' R26) = vars_of (dig s')"
    and "SI s' = SI s + 64" and "DI s' = DI s" and "msg s' = msg s"
proof -
  define s1 where "s1 = seq (map MSGSCHEDULE0 [0..<4]) s"
  define s2 where "s2 = seq (map roundCall [0..<64]) s1"
  have s': "s' = seq block_finish s2"
    by (simp add: s'_def block_body_def block_rounds_pattern seq_append s1_def s2_def)
  note st = schedule_start [OF m, folded s1_def]
  have m1: "\<forall>i<64. msg s1 ! (nat (SI s1) + i) = blk ! i"
    using m st by simp
  have "regName (7 * 64 + k) = regName k" for k
    using regName_period [of 56 k] by simp
  note names = this [of 0, simplified] this [of 1] this [of 2] this [of 3] this [of 4] this [of 5]
    this [of 6] this [of 7]
  have r2: "(regs s2 R19, regs s2 R20, regs s2 R21, regs s2 R22, regs s2 R23, regs s2 R24,
      regs s2 R25, regs s2 R26) = spec_rounds (spec_W blk) 64 (vars_of (dig s))"
    and same: "msg s2 = msg s1" "SI s2 = SI s1" "DI s2 = DI s1" "dig s2 = dig s1"
    using rounds_invariant [OF m1 st(1), of 64] inv st(2)
    unfolding Let_def s2_def [symmetric] names
    by (simp_all add: regName_def)
  show "dig s' = spec_compress (dig s) blk"
    unfolding s' block_finish_effect(1) r2 spec_compress_def using same st by simp
  show "(regs s' R19, regs s' R20, regs s' R21, regs s' R22, regs s' R23, regs s' R24,
      regs s' R25, regs s' R26) = vars_of (dig s')"
    unfolding s' by (rule block_finish_effect(2))
  show "SI s' = SI s + 64" and "DI s' = DI s" and "msg s' = msg s"
    unfolding s' block_finish_effect using same st by simp_all
qed

section \<open>The loop over the blocks\<close>

lemma seq_keeps:
  assumes "\<forall>f\<in>set fs. \<forall>s. P (f s) = P s"
  shows "P (seq fs s) = P s"
  using assms by (induction fs arbitrary: s) simp_all

lemma seq_keeps_pointers:
  assumes "\<forall>f\<in>set fs. \<forall>s. SI (f s) = SI s \<and> DI (f s) = DI s \<and> msg (f s) = msg s"
  shows "SI (seq fs s) = SI s \<and> DI (seq fs s) = DI s \<and> msg (seq fs s) = msg s"
  using assms by (induction fs arbitrary: s) simp_all

lemma instr_keep:
  "SI (MOVW_SI n r s) = SI s \<and> DI (MOVW_SI n r s) = DI s \<and> msg (MOVW_SI n r s) = msg s"
  "SI (MOVW_BP n r s) = SI s \<and> DI (MOVW_BP n r s) = DI s \<and> msg (MOVW_BP n r s) = msg s"
  "SI (MOVW_to_BP r n s) = SI s \<and> DI (MOVW_to_BP r n s) = DI s \<and> msg (MOVW_to_BP r n s) = msg s"
  "SI (MOVW r r' s) = SI s \<and> DI (MOVW r r' s) = DI s \<and> msg (MOVW r r' s) = msg s"
  "SI (REVW r r' s) = SI s \<and> DI (REVW r r' s) = DI s \<and> msg (REVW r r' s) = msg s"
  "SI (RORW n r s) = SI s \<and> DI (RORW n r s) = DI s \<and> msg (RORW n r s) = msg s"
  "SI (EORW r r' s) = SI s \<and> DI (EORW r r' s) = DI s \<and> msg (EORW r r' s) = msg s"
  "SI (ANDW r r' s) = SI s \<and> DI (ANDW r r' s) = DI s \<and> msg (ANDW r r' s) = msg s"
  "SI (ORRW r r' s) = SI s \<and> DI (ORRW r r' s) = DI s \<and> msg (ORRW r r' s) = msg s"
  "SI (MVNW r r' s) = SI s \<and> DI (MVNW r r' s) = DI s \<and> msg (MVNW r r' s) = msg s"
  "SI (ADDW r r' s) = SI s \<and> DI (ADDW r r' s) = DI s \<and> msg (ADDW r r' s) = msg s"
  "SI (ADDW_const c r s) = SI s \<and> DI (ADDW_const c r s) = DI s \<and> msg (ADDW_const c r s) = msg s"
  by (simp_all add: instr_defs MOVW_SI_def Let_def)

lemma macro_keep:
  "SI (MSGSCHEDULE0 j s) = SI s \<and> DI (MSGSCHEDULE0 j s) = DI s \<and> msg (MSGSCHEDULE0 j s) = msg s"
  "SI (MSGSCHEDULE01 j s) = SI s \<and> DI (MSGSCHEDULE01 j s) = DI s
    \<and> msg (MSGSCHEDULE01 j s) = msg s"
  "SI (MSGSCHEDULE1 j s) = SI s \<and> DI (MSGSCHEDULE1 j s) = DI s \<and> msg (MSGSCHEDULE1 j s) = msg s"
  "SI (SM3SS1 c a e s) = SI s \<and> DI (SM3SS1 c a e s) = DI s \<and> msg (SM3SS1 c a e s) = msg s"
  "SI (SM3TT10 j a b c' d s) = SI s \<and> DI (SM3TT10 j a b c' d s) = DI s
    \<and> msg (SM3TT10 j a b c' d s) = msg s"
  "SI (SM3TT20 e f g h s) = SI s \<and> DI (SM3TT20 e f g h s) = DI s
    \<and> msg (SM3TT20 e f g h s) = msg s"
  "SI (SM3TT11 j a b c' d s) = SI s \<and> DI (SM3TT11 j a b c' d s) = DI s
    \<and> msg (SM3TT11 j a b c' d s) = msg s"
  "SI (SM3TT21 e f g h s) = SI s \<and> DI (SM3TT21 e f g h s) = DI s
    \<and> msg (SM3TT21 e f g h s) = msg s"
  "SI (COPYRESULT b d f h s) = SI s \<and> DI (COPYRESULT b d f h s) = DI s
    \<and> msg (COPYRESULT b d f h s) = msg s"
  unfolding MSGSCHEDULE0_def MSGSCHEDULE01_def MSGSCHEDULE1_def SM3SS1_def SM3TT10_def
    SM3TT20_def SM3TT11_def SM3TT21_def COPYRESULT_def
  by (rule seq_keeps_pointers, simp add: instr_keep)+

lemma round_keep:
  "SI (SM3ROUND0 j c a b c' d e f g h s) = SI s \<and> DI (SM3ROUND0 j c a b c' d e f g h s) = DI s
    \<and> msg (SM3ROUND0 j c a b c' d e f g h s) = msg s"
  "SI (SM3ROUND1 j c a b c' d e f g h s) = SI s \<and> DI (SM3ROUND1 j c a b c' d e f g h s) = DI s
    \<and> msg (SM3ROUND1 j c a b c' d e f g h s) = msg s"
  "SI (SM3ROUND2 j c a b c' d e f g h s) = SI s \<and> DI (SM3ROUND2 j c a b c' d e f g h s) = DI s
    \<and> msg (SM3ROUND2 j c a b c' d e f g h s) = msg s"
  unfolding SM3ROUND0_def SM3ROUND1_def SM3ROUND2_def
  by (rule seq_keeps_pointers, simp add: macro_keep)+

lemma rounds_keep:
  assumes "f \<in> set block_rounds"
  shows "SI (f s) = SI s" and "DI (f s) = DI s" and "msg (f s) = msg s"
proof -
  from assms consider j where "f = MSGSCHEDULE0 j" | j where "f = roundCall j"
    unfolding block_rounds_pattern by auto
  then have "SI (f s) = SI s \<and> DI (f s) = DI s \<and> msg (f s) = msg s"
    by cases (simp_all add: roundCall_def macro_keep round_keep)
  then show "SI (f s) = SI s" and "DI (f s) = DI s" and "msg (f s) = msg s"
    by simp_all
qed

lemma block_body_pointers:
  "SI (block_body s) = SI s + 64" "DI (block_body s) = DI s" "msg (block_body s) = msg s"
proof -
  define s1 where "s1 = seq block_rounds s"
  have "SI s1 = SI s" and "DI s1 = DI s" and "msg s1 = msg s"
    unfolding s1_def by (rule seq_keeps, simp add: rounds_keep)+
  then show "SI (block_body s) = SI s + 64" and "DI (block_body s) = DI s"
    and "msg (block_body s) = msg s"
    by (simp_all add: block_body_def seq_append s1_def [symmetric] block_finish_effect)
qed

lemma funpow_pointers:
  "SI ((block_body ^^ n) s) = SI s + 64 * int n" "DI ((block_body ^^ n) s) = DI s"
  "msg ((block_body ^^ n) s) = msg s"
  by (induction n) (simp_all add: block_body_pointers)

lemma block_loop_runs:
  "DI s = SI s + 64 * int (Suc n) \<Longrightarrow> block_loop s = Some ((block_body ^^ Suc n) s)"
proof (induction n arbitrary: s)
  case 0
  then show ?case
    by (subst block_loop.simps) (simp add: Let_def block_body_pointers)
next
  case (Suc n)
  have "DI (block_body s) = SI (block_body s) + 64 * int (Suc n)"
    using Suc.prems by (simp add: block_body_pointers)
  then have "block_loop (block_body s) = Some ((block_body ^^ Suc n) (block_body s))"
    by (rule Suc.IH)
  moreover have "SI (block_body s) \<noteq> DI (block_body s)"
    using Suc.prems by (simp add: block_body_pointers)
  ultimately show ?case
    by (subst block_loop.simps) (simp add: Let_def funpow_swap1)
qed

lemma and_minus_64: "(k :: int) AND - 64 = 64 * (k div 64)"
  using and_not_63 [of k] by simp

lemma block_entry_fields:
  "SI (block_entry r w d m) = 0" "DI (block_entry r w d m) = 64 * int (length m div 64)"
  "msg (block_entry r w d m) = m" "dig (block_entry r w d m) = d"
  "(regs (block_entry r w d m) R19, regs (block_entry r w d m) R20,
    regs (block_entry r w d m) R21, regs (block_entry r w d m) R22,
    regs (block_entry r w d m) R23, regs (block_entry r w d m) R24,
    regs (block_entry r w d m) R25, regs (block_entry r w d m) R26) = vars_of d"
  by (simp_all add: block_entry_def instr_defs and_minus_64 vars_of_def zdiv_int)

lemma block_result:
  "block r w d m =
     Some (if length m < 64 then \<lparr>regs = r, frame = w, msg = m, SI = 0, DI = 0, dig = d\<rparr>
           else (block_body ^^ (length m div 64)) (block_entry r w d m))"
proof (cases "length m < 64")
  case True
  then show ?thesis
    by (simp add: block_def and_minus_64 Let_def zdiv_int [symmetric])
next
  case False
  then obtain n where n: "length m div 64 = Suc n"
    by (cases "length m div 64") (simp_all add: div_eq_0_iff)
  have "int (length m) div 64 = int (length m div 64)"
    by (simp add: zdiv_int)
  then have len: "int (length m) AND NOT 63 = 64 * int (Suc n)"
    by (simp add: and_minus_64 n del: of_nat_Suc)
  have entry: "seq [LDPW 0 R19 R20, LDPW 1 R21 R22, LDPW 2 R23 R24, LDPW 3 R25 R26]
      (\<lparr>regs = r, frame = w, msg = m, SI = 0, DI = 0, dig = d\<rparr>
        \<lparr>DI := SI \<lparr>regs = r, frame = w, msg = m, SI = 0, DI = 0, dig = d\<rparr>
                 + (int (length m) AND NOT 63)\<rparr>) = block_entry r w d m"
    by (simp add: block_entry_def)
  have "block_loop (block_entry r w d m) = Some ((block_body ^^ Suc n) (block_entry r w d m))"
    by (rule block_loop_runs) (simp add: block_entry_fields n del: of_nat_Suc)
  then show ?thesis
    using False len unfolding block_def Let_def entry
    by (simp add: n del: of_nat_Suc)
qed

lemma blocks_fold:
  "k \<le> length m div 64 \<Longrightarrow>
   (let s' = (block_body ^^ k) (block_entry r w d m) in
    dig s' = foldl spec_compress d (map (\<lambda>i. take 64 (drop (64 * i) m)) [0..<k])
    \<and> (regs s' R19, regs s' R20, regs s' R21, regs s' R22, regs s' R23, regs s' R24,
        regs s' R25, regs s' R26) = vars_of (dig s'))"
proof (induction k)
  case 0
  then show ?case by (simp add: block_entry_fields)
next
  case (Suc k)
  define s1 where "s1 = (block_body ^^ k) (block_entry r w d m)"
  have IH: "dig s1 = foldl spec_compress d (map (\<lambda>i. take 64 (drop (64 * i) m)) [0..<k])"
    and inv: "(regs s1 R19, regs s1 R20, regs s1 R21, regs s1 R22, regs s1 R23, regs s1 R24,
        regs s1 R25, regs s1 R26) = vars_of (dig s1)"
    using Suc by (simp_all add: s1_def Let_def)
  have SI1: "SI s1 = 64 * int k" and msg1: "msg s1 = m"
    by (simp_all add: s1_def funpow_pointers block_entry_fields)
  have "64 * Suc k \<le> 64 * (length m div 64)"
    using Suc.prems by simp
  also have "\<dots> \<le> length m"
    by simp
  finally have bound: "64 * k + 64 \<le> length m"
    by simp
  have m1: "\<forall>i<64. msg s1 ! (nat (SI s1) + i) = take 64 (drop (64 * k) m) ! i"
    using bound by (simp add: SI1 msg1 nat_mult_distrib)
  note eff = block_body_effect [OF inv m1]
  show ?case
    using eff(1,2) IH by (simp add: s1_def [symmetric] Let_def)
qed

section \<open>sm3: what the block function computes\<close>

lemma blocks_of_short: "length m < 64 \<Longrightarrow> blocks_of m = []"
  by (simp add: blocks_of_def)

text \<open>
  C5. For every digest state and every input, \<open>block\<close> returns, and the digest it
  leaves is the fold of the specified compression over the complete 64-byte blocks of the
  input: for each block the 64 rounds \<open>spec_round\<close> (with \<open>SS1\<close>, \<open>SS2\<close>,
  \<open>TT1\<close>, \<open>TT2\<close>, the rotations of \<open>B\<close> and \<open>F\<close>, and \<open>P0(TT2)\<close>) on the
  expanded words of the block, then the XOR of the round output into each state word.
\<close>

theorem block_computes_compress:
  "\<exists>s'. block r w d m = Some s' \<and> dig s' = foldl spec_compress d (blocks_of m)"
proof (cases "length m < 64")
  case True
  then show ?thesis
    by (simp add: block_result blocks_of_short)
next
  case False
  from blocks_fold [of "length m div 64" m r w d]
  have "dig ((block_body ^^ (length m div 64)) (block_entry r w d m))
      = foldl spec_compress d (blocks_of m)"
    by (simp add: Let_def blocks_of_def)
  with False show ?thesis
    by (simp add: block_result)
qed

theorem block_computes_compress_witness:
  "\<exists>s'. block (\<lambda>r. 0) (\<lambda>i. 0) (\<lambda>i. 0) (replicate 64 0) = Some s'
     \<and> dig s' = spec_compress (\<lambda>i. 0) (replicate 64 0)"
  using block_computes_compress [of "\<lambda>r. 0" "\<lambda>i. 0" "\<lambda>i. 0" "replicate 64 0"]
  by (simp add: blocks_of_def)

text \<open>
  C10. \<open>block\<close> consumes complete blocks only: it returns after exactly
  \<open>length p div 64\<close> runs of the loop body, one for each complete block, with \<open>SI\<close>
  advanced by 64 bytes for each; on an input shorter than 64 bytes it returns the state
  it was started in, so the eight digest words are unchanged.
\<close>

theorem block_consumes_complete_blocks:
  "(\<exists>s'. block r w d m = Some s'
      \<and> dig s' = foldl spec_compress d (blocks_of m)
      \<and> length (blocks_of m) = length m div 64
      \<and> (if length m < 64 then s' = \<lparr>regs = r, frame = w, msg = m, SI = 0, DI = 0, dig = d\<rparr>
          else s' = (block_body ^^ (length m div 64)) (block_entry r w d m)
            \<and> SI s' = 64 * int (length m div 64)))
   \<and> (length m < 64 \<longrightarrow> (\<exists>s'. block r w d m = Some s' \<and> dig s' = d))"
proof (cases "length m < 64")
  case True
  then show ?thesis
    by (simp add: block_result blocks_of_short)
next
  case False
  from blocks_fold [of "length m div 64" m r w d]
  have "dig ((block_body ^^ (length m div 64)) (block_entry r w d m))
      = foldl spec_compress d (blocks_of m)"
    by (simp add: Let_def blocks_of_def)
  with False show ?thesis
    by (simp add: block_result funpow_pointers block_entry_fields blocks_of_def)
qed

theorem block_consumes_complete_blocks_witness:
  "\<exists>s'. block (\<lambda>r. 0) (\<lambda>i. 0) (\<lambda>i. 7) [1, 2, 3] = Some s' \<and> dig s' = (\<lambda>i. 7)"
  using block_consumes_complete_blocks [of "\<lambda>r. 0" "\<lambda>i. 0" "\<lambda>i. 7" "[1, 2, 3]"]
  by simp

end
